theory Spec2Isabelle
  imports Complex_Main "HOL-Library.Word" "HOL-Library.AList"
begin

section \<open>The GitHub library sync agent (github_sync.py)\<close>

text \<open>
  A shallow embedding of \<^verbatim>\<open>src/github_sync.py\<close>: the directory scanner
  \<^verbatim>\<open>collect_files\<close>, the fingerprint \<^verbatim>\<open>file_md5\<close>, the remote client
  \<^verbatim>\<open>GitHubAPI\<close> and the reconciliation loop of \<^verbatim>\<open>run_sync\<close>.

  Python exceptions are values of \<open>error\<close>; a function that can raise returns
  \<open>error + 'a\<close> with \<open>Inl\<close> for the exception. \<^verbatim>\<open>sys.exit(1)\<close> is the
  exception \<open>SystemExit 1\<close>. Logging only writes text and is left out.
\<close>

subsection \<open>Exceptions\<close>

datatype error =
    SystemExit nat
  | OSError
  | RequestException
  | JSONDecodeError
  | AttributeError
  | FormatError

subsection \<open>The local file system\<close>

text \<open>
  The library directory is a snapshot taken for one run: a directory is the list of its
  entries in the order \<^verbatim>\<open>os.walk\<close> lists them. A regular file has a name, the size
  \<^verbatim>\<open>stat().st_size\<close> reports and the outcome of opening and reading it: its bytes, or
  the \<^verbatim>\<open>OSError\<close> the read raises. \<^verbatim>\<open>stat\<close> itself is taken to succeed on
  every listed file.
\<close>

type_synonym byte = "8 word"

record local_file =
  fname :: string
  st_size :: nat
  fdata :: "error + byte list"

datatype node = File local_file | Dir string "node list"

text \<open>
  A path below the library root is the list of directory names leading to the file,
  together with the file it denotes in the snapshot.
\<close>

type_synonym abs_path = "string list \<times> local_file"

subsection \<open>Fingerprints: \<^verbatim>\<open>file_md5\<close>\<close>

text \<open>
  \<^verbatim>\<open>hashlib.md5()\<close> is a library object. Its documented contract is that
  \<^verbatim>\<open>update(a); update(b)\<close> is \<^verbatim>\<open>update(a + b)\<close> and that \<^verbatim>\<open>hexdigest()\<close>
  is the digest of the data fed so far: the object is the bytes fed so far, and the
  MD5 function itself (bytes to 32 hexadecimal digits) is a parameter \<open>md5\<close>.
\<close>

record hasher =
  fed :: "byte list"

definition md5_new :: hasher where
  "md5_new = \<lparr>fed = []\<rparr>"

definition md5_update :: "hasher \<Rightarrow> byte list \<Rightarrow> hasher" where
  "md5_update h chunk = h\<lparr>fed := fed h @ chunk\<rparr>"

definition hexdigest :: "(byte list \<Rightarrow> string) \<Rightarrow> hasher \<Rightarrow> string" where
  "hexdigest md5 h = md5 (fed h)"

text \<open>
  \<^verbatim>\<open>for chunk in iter(lambda: f.read(65536), b""): h.update(chunk)\<close>.
  The first argument is what is left of the open file: \<^verbatim>\<open>f.read(65536)\<close> returns
  its first 65536 bytes (fewer at the end of the file) and moves past them; the loop
  stops at the first empty chunk.
\<close>

function read_loop :: "byte list \<Rightarrow> hasher \<Rightarrow> hasher" where
  "read_loop rest h =
     (let chunk = take 65536 rest in
      if chunk = [] then h
      else read_loop (drop 65536 rest) (md5_update h chunk))"
  by pat_completeness auto
termination
proof (relation "measure (\<lambda>(rest, h). length rest)")
  show "wf (measure (\<lambda>(rest :: byte list, h :: hasher). length rest))"
    by simp
next
  fix rest :: "byte list" and h :: hasher and chunk :: "byte list"
  assume "chunk = take 65536 rest" and "chunk \<noteq> []"
  then have "rest \<noteq> []"
    by auto
  then show "((drop 65536 rest, md5_update h chunk), (rest, h))
      \<in> measure (\<lambda>(rest, h). length rest)"
    by simp
qed

definition file_md5 :: "(byte list \<Rightarrow> string) \<Rightarrow> abs_path \<Rightarrow> error + string" where
  "file_md5 md5 path =
     (case fdata (snd path) of
        Inl err \<Rightarrow> Inl err
      | Inr bytes \<Rightarrow> Inr (hexdigest md5 (read_loop bytes md5_new)))"

text \<open>
  The digest of a byte string taken at once, \<^verbatim>\<open>hashlib.md5(data).hexdigest()\<close>:
  the reference the streamed fingerprint is compared with.
\<close>

definition md5_at_once :: "(byte list \<Rightarrow> string) \<Rightarrow> byte list \<Rightarrow> string" where
  "md5_at_once md5 bytes = hexdigest md5 (md5_update md5_new bytes)"

subsection \<open>The directory scanner: \<^verbatim>\<open>collect_files\<close>\<close>

text \<open>
  \<^verbatim>\<open>Path(fname).suffix\<close> as pathlib computes it (up to Python 3.13): with \<open>i\<close> the
  index of the last dot of the name, the suffix is \<^verbatim>\<open>name[i:]\<close> when
  \<^verbatim>\<open>0 < i < len(name) - 1\<close> and the empty string otherwise (no dot, a leading dot
  only, or a trailing dot).
\<close>

definition rfind_dot :: "string \<Rightarrow> nat option" where
  "rfind_dot name =
     (if CHR ''.'' \<in> set name
      then Some (length name - 1 - length (takeWhile (\<lambda>c. c \<noteq> CHR ''.'') (rev name)))
      else None)"

definition suffix :: "string \<Rightarrow> string" where
  "suffix name =
     (case rfind_dot name of
        None \<Rightarrow> []
      | Some i \<Rightarrow> if 0 < i \<and> i + 1 < length name then drop i name else [])"

text \<open>
  \<^verbatim>\<open>int(x)\<close> on a number truncates towards zero. The limit \<^verbatim>\<open>max_mb\<close> is an
  exact number (an int, or a finite float: the products with 1024 are exact, as 1024 is
  a power of two), so it is a rational here.
\<close>

definition py_int :: "rat \<Rightarrow> int" where
  "py_int x = (if 0 \<le> x then \<lfloor>x\<rfloor> else \<lceil>x\<rceil>)"

definition max_bytes :: "rat \<Rightarrow> int" where
  "max_bytes max_mb = py_int (max_mb * 1024 * 1024)"

text \<open>
  \<^verbatim>\<open>str(rel).replace("\\", "/")\<close>: the components of the relative path joined by the
  separator \<^verbatim>\<open>/\<close>, then every backslash (byte 0x5C) replaced by \<^verbatim>\<open>/\<close>.
\<close>

fun join_path :: "string list \<Rightarrow> string" where
  "join_path [] = []"
| "join_path [c] = c"
| "join_path (c # cs) = c @ ''/'' @ join_path cs"

definition replace_backslash :: "string \<Rightarrow> string" where
  "replace_backslash s = map (\<lambda>c. if c = CHR 0x5C then CHR ''/'' else c) s"

definition repo_path_of :: "string list \<Rightarrow> string \<Rightarrow> string" where
  "repo_path_of rootd name = replace_backslash (join_path (rootd @ [name]))"

text \<open>
  The test of line 143, \<^verbatim>\<open>exts and Path(fname).suffix.lower() not in exts\<close>, negated:
  the file passes when the allow-list is empty (\<^verbatim>\<open>exts\<close> is \<^verbatim>\<open>None\<close>) or holds its
  lower-cased suffix; \<^verbatim>\<open>exts\<close> is the set of the lower-cased extensions.
  \<^verbatim>\<open>str.lower()\<close> is a library function on Unicode text: it is the parameter
  \<open>lower\<close> of the scanner.
\<close>

definition ext_ok :: "(string \<Rightarrow> string) \<Rightarrow> string list \<Rightarrow> string \<Rightarrow> bool" where
  "ext_ok lower extensions name =
     (extensions = [] \<or> lower (suffix name) \<in> set (map lower extensions))"

text \<open>
  The inner loop of \<^verbatim>\<open>collect_files\<close> over the files of one directory \<open>rootd\<close>
  (the directory names from the library root down): a file is dropped when its
  extension is not allowed, or when its size is above \<^verbatim>\<open>max_bytes\<close>; otherwise the
  pair \<^verbatim>\<open>(abs_path, repo_path)\<close> is yielded.
\<close>

fun scan_files :: "(string \<Rightarrow> string) \<Rightarrow> string list \<Rightarrow> int \<Rightarrow> string list \<Rightarrow> node list \<Rightarrow> (abs_path \<times> string) list" where
  "scan_files lower extensions mb rootd [] = []"
| "scan_files lower extensions mb rootd (Dir d children # ns) = scan_files lower extensions mb rootd ns"
| "scan_files lower extensions mb rootd (File f # ns) =
     (if \<not> ext_ok lower extensions (fname f) then scan_files lower extensions mb rootd ns
      else if int (st_size f) > mb then scan_files lower extensions mb rootd ns
      else ((rootd, f), repo_path_of rootd (fname f)) # scan_files lower extensions mb rootd ns)"

text \<open>
  \<^verbatim>\<open>os.walk\<close> is top-down: it yields a directory with its sub-directory and file
  names, the caller removes the ignored names from \<^verbatim>\<open>dirs\<close> in place, and only then
  the walk goes down into each remaining sub-directory in turn. So the files of a
  directory come first, then the walks of its sub-directories whose names are not in
  \<^verbatim>\<open>ignore_dirs\<close>, in listing order.
\<close>

fun walk_dirs :: "(string \<Rightarrow> string) \<Rightarrow> string list \<Rightarrow> string list \<Rightarrow> int \<Rightarrow> string list \<Rightarrow> node list \<Rightarrow> (abs_path \<times> string) list" where
  "walk_dirs lower extensions ignore mb rootd [] = []"
| "walk_dirs lower extensions ignore mb rootd (File f # ns) = walk_dirs lower extensions ignore mb rootd ns"
| "walk_dirs lower extensions ignore mb rootd (Dir d children # ns) =
     (if d \<in> set ignore then []
      else scan_files lower extensions mb (rootd @ [d]) children
           @ walk_dirs lower extensions ignore mb (rootd @ [d]) children)
     @ walk_dirs lower extensions ignore mb rootd ns"

definition collect_files :: "(string \<Rightarrow> string) \<Rightarrow> node list \<Rightarrow> string list \<Rightarrow> string list \<Rightarrow> rat \<Rightarrow> (abs_path \<times> string) list" where
  "collect_files lower library_path extensions ignore_dirs max_mb =
     scan_files lower extensions (max_bytes max_mb) [] library_path
     @ walk_dirs lower extensions ignore_dirs (max_bytes max_mb) [] library_path"

text \<open>
  Where a file is in the snapshot: \<open>file_at nodes ds f\<close> holds when \<open>f\<close> is a file of
  the directory reached from the directory \<open>nodes\<close> through the sub-directory names
  \<open>ds\<close>. It is how the properties of the scanner speak of a file's place.
\<close>

fun file_at :: "node list \<Rightarrow> string list \<Rightarrow> local_file \<Rightarrow> bool" where
  "file_at nodes [] f = (File f \<in> set nodes)"
| "file_at nodes (d # ds) f = (\<exists>children. Dir d children \<in> set nodes \<and> file_at children ds f)"

subsection \<open>Configuration\<close>

text \<open>
  The configuration dictionary, with the keys of \<^verbatim>\<open>DEFAULT_CONFIG\<close>
  (\<^verbatim>\<open>load_config\<close> merges the saved file over the defaults, so every key is present).
\<close>

record config =
  github_token :: string
  github_username :: string
  repo_name :: string
  library_path :: string
  branch :: string
  commit_message :: string
  extensions :: "string list"
  ignore_dirs :: "string list"
  max_file_size_mb :: rat
  dry_run :: bool

subsection \<open>The remote store: \<^verbatim>\<open>GitHubAPI\<close>\<close>

text \<open>
  An HTTP request as \<^verbatim>\<open>requests.get\<close>, \<^verbatim>\<open>requests.put\<close> and \<^verbatim>\<open>requests.post\<close>
  send it: the URL, the headers, and the query parameters or the JSON payload.
\<close>

record put_payload =
  pl_message :: string
  pl_content :: string
  pl_branch :: string
  pl_sha :: "string option"

record repo_payload =
  rp_name :: string
  rp_private :: bool
  rp_auto_init :: bool

datatype request =
    GET string "(string \<times> string) list" "(string \<times> string) list"
  | PUT string "(string \<times> string) list" put_payload
  | POST string "(string \<times> string) list" repo_payload

text \<open>
  A response: its status code and what \<^verbatim>\<open>r.json()\<close> gives, which is an exception
  when the body is not JSON, a JSON object (here with its string members, as a
  dictionary), or some other JSON value, such as the array GitHub returns for a
  directory.
\<close>

datatype json_doc = JObject "string \<rightharpoonup> string" | JOther

record response =
  status_code :: int
  json :: "error + json_doc"

text \<open>
  What a run is given from outside: the directory the library path resolves to
  (\<open>None\<close> when \<^verbatim>\<open>is_dir()\<close> is false), the remote service, the clock, and three
  library functions: \<^verbatim>\<open>str.format\<close> on the commit template, \<^verbatim>\<open>str.lower\<close> and
  MD5. The remote
  service is opaque: its answer to a request is any function of the requests sent so
  far and of the request, and it may be an exception raised by \<^verbatim>\<open>requests\<close>.
\<close>

record env =
  library :: "node list option"
  remote :: "request list \<Rightarrow> request \<Rightarrow> error + response"
  now :: string
  str_format :: "string \<Rightarrow> string \<Rightarrow> error + string"
  str_lower :: "string \<Rightarrow> string"
  md5_hex :: "byte list \<Rightarrow> string"

text \<open>
  What a run can change: the persisted cache file \<^verbatim>\<open>.sync_cache.json\<close> (\<open>None\<close>
  when the file does not exist; otherwise the JSON object it holds, a dictionary from
  repo path to fingerprint in insertion order) and the remote service, through the
  requests sent to it, recorded in order.
\<close>

type_synonym cache = "(string \<times> string) list"

record world =
  cache_file :: "cache option"
  net_log :: "request list"

definition send :: "env \<Rightarrow> request \<Rightarrow> world \<Rightarrow> (error + response) \<times> world" where
  "send env req w = (remote env (net_log w) req, w\<lparr>net_log := net_log w @ [req]\<rparr>)"

record api =
  headers :: "(string \<times> string) list"
  username :: string
  repo :: string
  api_branch :: string

definition BASE :: string where
  "BASE = ''https://api.github.com''"

definition GitHubAPI :: "string \<Rightarrow> string \<Rightarrow> string \<Rightarrow> string \<Rightarrow> api" where
  "GitHubAPI token user repository br =
     \<lparr>headers = [(''Authorization'', ''token '' @ token),
                 (''Accept'', ''application/vnd.github+json''),
                 (''X-GitHub-Api-Version'', ''2022-11-28'')],
      username = user, repo = repository, api_branch = br\<rparr>"

definition url :: "string \<Rightarrow> string" where
  "url path = BASE @ path"

definition contents_url :: "api \<Rightarrow> string \<Rightarrow> string" where
  "contents_url a repo_path =
     url (''/repos/'' @ username a @ ''/'' @ repo a @ ''/contents/'' @ repo_path)"

text \<open>\<^verbatim>\<open>base64.b64encode(content_bytes).decode()\<close>: the standard alphabet, padded.\<close>

definition b64_char :: "nat \<Rightarrow> char" where
  "b64_char i =
     ''ABCDEFGHIJKLMNOPQRSTUVWXYZabcdefghijklmnopqrstuvwxyz0123456789+/'' ! (i mod 64)"

fun b64encode :: "byte list \<Rightarrow> string" where
  "b64encode [] = []"
| "b64encode [a] =
     (let n = unat a * 65536
      in [b64_char (n div 262144), b64_char (n div 4096), CHR ''='', CHR ''=''])"
| "b64encode [a, b] =
     (let n = unat a * 65536 + unat b * 256
      in [b64_char (n div 262144), b64_char (n div 4096), b64_char (n div 64), CHR ''=''])"
| "b64encode (a # b # c # rest) =
     (let n = unat a * 65536 + unat b * 256 + unat c
      in [b64_char (n div 262144), b64_char (n div 4096), b64_char (n div 64), b64_char n]
         @ b64encode rest)"

text \<open>
  \<^verbatim>\<open>get_file_sha\<close>: status 200 gives \<^verbatim>\<open>r.json().get("sha")\<close>, which raises when
  the body is not JSON or is not an object; every other status gives \<^verbatim>\<open>None\<close>.
\<close>

definition get_request :: "api \<Rightarrow> string \<Rightarrow> request" where
  "get_request a repo_path = GET (contents_url a repo_path) (headers a) [(''ref'', api_branch a)]"

definition get_file_sha :: "env \<Rightarrow> api \<Rightarrow> string \<Rightarrow> world \<Rightarrow> (error + string option) \<times> world" where
  "get_file_sha env a repo_path w =
     (case send env (get_request a repo_path) w of
        (Inl err, w') \<Rightarrow> (Inl err, w')
      | (Inr r, w') \<Rightarrow>
          if status_code r = 200 then
            (case json r of
               Inl err \<Rightarrow> (Inl err, w')
             | Inr JOther \<Rightarrow> (Inl AttributeError, w')
             | Inr (JObject members) \<Rightarrow> (Inr (members ''sha''), w'))
          else (Inr None, w'))"

text \<open>
  \<^verbatim>\<open>put_file\<close>: the payload has the key \<^verbatim>\<open>sha\<close> only when \<^verbatim>\<open>if sha:\<close> holds, that
  is when the token is neither \<^verbatim>\<open>None\<close> nor the empty string. The result is
  \<^verbatim>\<open>True\<close> for the statuses 200 and 201.
\<close>

definition put_request :: "api \<Rightarrow> string \<Rightarrow> byte list \<Rightarrow> string \<Rightarrow> string option \<Rightarrow> request" where
  "put_request a repo_path content_bytes message sha =
     PUT (contents_url a repo_path) (headers a)
       \<lparr>pl_message = message,
        pl_content = b64encode content_bytes,
        pl_branch = api_branch a,
        pl_sha = (case sha of None \<Rightarrow> None | Some s \<Rightarrow> if s = [] then None else Some s)\<rparr>"

definition put_file :: "env \<Rightarrow> api \<Rightarrow> string \<Rightarrow> byte list \<Rightarrow> string \<Rightarrow> string option \<Rightarrow> world
    \<Rightarrow> (error + bool) \<times> world" where
  "put_file env a repo_path content_bytes message sha w =
     (case send env (put_request a repo_path content_bytes message sha) w of
        (Inl err, w') \<Rightarrow> (Inl err, w')
      | (Inr r, w') \<Rightarrow> (Inr (status_code r = 200 \<or> status_code r = 201), w'))"

definition repo_request :: "api \<Rightarrow> request" where
  "repo_request a = GET (url (''/repos/'' @ username a @ ''/'' @ repo a)) (headers a) []"

definition ensure_repo_exists :: "env \<Rightarrow> api \<Rightarrow> world \<Rightarrow> (error + bool) \<times> world" where
  "ensure_repo_exists env a w =
     (case send env (repo_request a) w of
        (Inl err, w') \<Rightarrow> (Inl err, w')
      | (Inr r, w') \<Rightarrow> (Inr (status_code r = 200), w'))"

definition create_request :: "api \<Rightarrow> bool \<Rightarrow> request" where
  "create_request a private =
     POST (url ''/user/repos'') (headers a)
       \<lparr>rp_name = repo a, rp_private = private, rp_auto_init = True\<rparr>"

definition create_repo :: "env \<Rightarrow> api \<Rightarrow> bool \<Rightarrow> world \<Rightarrow> (error + bool) \<times> world" where
  "create_repo env a private w =
     (case send env (create_request a private) w of
        (Inl err, w') \<Rightarrow> (Inl err, w')
      | (Inr r, w') \<Rightarrow> (Inr (status_code r = 201), w'))"

subsection \<open>The reconciliation loop: \<^verbatim>\<open>run_sync\<close>\<close>

record stats =
  uploaded :: nat
  skipped :: nat
  failed :: nat
  total :: nat

definition read_bytes :: "abs_path \<Rightarrow> error + byte list" where
  "read_bytes path = fdata (snd path)"

text \<open>
  The body of the loop (lines 193 to 214) for one scanned file, on the counters and
  the in-memory cache. \<^verbatim>\<open>cache[repo_path] = md5\<close> keeps the place of an existing key
  and appends a new one, as \<open>AList.update\<close> does. An exception leaves the loop and
  the run; the counters and the in-memory cache are lost with it.
\<close>

definition sync_file :: "config \<Rightarrow> env \<Rightarrow> api \<Rightarrow> string \<Rightarrow> abs_path \<times> string
    \<Rightarrow> stats \<times> cache \<Rightarrow> world \<Rightarrow> (error + stats \<times> cache) \<times> world" where
  "sync_file cfg env a commit_msg entry sc w =
     (case entry of (abs_path, repo_path) \<Rightarrow>
      case sc of (s, cache) \<Rightarrow>
      let s1 = s\<lparr>total := total s + 1\<rparr> in
      case file_md5 (md5_hex env) abs_path of
        Inl err \<Rightarrow> (Inl err, w)
      | Inr fingerprint \<Rightarrow>
          if map_of cache repo_path = Some fingerprint
          then (Inr (s1\<lparr>skipped := skipped s1 + 1\<rparr>, cache), w)
          else if dry_run cfg
          then (Inr (s1\<lparr>uploaded := uploaded s1 + 1\<rparr>, cache), w)
          else
            case get_file_sha env a repo_path w of
              (Inl err, w1) \<Rightarrow> (Inl err, w1)
            | (Inr sha, w1) \<Rightarrow>
                case read_bytes abs_path of
                  Inl err \<Rightarrow> (Inl err, w1)
                | Inr content \<Rightarrow>
                    case put_file env a repo_path content commit_msg sha w1 of
                      (Inl err, w2) \<Rightarrow> (Inl err, w2)
                    | (Inr ok, w2) \<Rightarrow>
                        if ok
                        then (Inr (s1\<lparr>uploaded := uploaded s1 + 1\<rparr>,
                                   AList.update repo_path fingerprint cache), w2)
                        else (Inr (s1\<lparr>failed := failed s1 + 1\<rparr>, cache), w2))"

fun sync_loop :: "config \<Rightarrow> env \<Rightarrow> api \<Rightarrow> string \<Rightarrow> (abs_path \<times> string) list
    \<Rightarrow> stats \<times> cache \<Rightarrow> world \<Rightarrow> (error + stats \<times> cache) \<times> world" where
  "sync_loop cfg env a commit_msg [] sc w = (Inr sc, w)"
| "sync_loop cfg env a commit_msg (entry # entries) sc w =
     (case sync_file cfg env a commit_msg entry sc w of
        (Inl err, w') \<Rightarrow> (Inl err, w')
      | (Inr sc', w') \<Rightarrow> sync_loop cfg env a commit_msg entries sc' w')"

text \<open>
  Lines 164 to 185, before the loop: the commit message, the required fields, the
  library directory, and the repository, which is created when it is not accessible.
  The result is the client, the commit message and the library directory.
\<close>

definition preflight :: "config \<Rightarrow> env \<Rightarrow> world
    \<Rightarrow> (error + api \<times> string \<times> node list) \<times> world" where
  "preflight cfg env w =
     (case str_format env (commit_message cfg) (now env) of
        Inl err \<Rightarrow> (Inl err, w)
      | Inr commit_msg \<Rightarrow>
          if github_token cfg = [] \<or> github_username cfg = [] \<or> repo_name cfg = []
             \<or> library_path cfg = []
          then (Inl (SystemExit 1), w)
          else
            case library env of
              None \<Rightarrow> (Inl (SystemExit 1), w)
            | Some lib \<Rightarrow>
                let a = GitHubAPI (github_token cfg) (github_username cfg) (repo_name cfg)
                          (branch cfg) in
                case ensure_repo_exists env a w of
                  (Inl err, w1) \<Rightarrow> (Inl err, w1)
                | (Inr found, w1) \<Rightarrow>
                    if found then (Inr (a, commit_msg, lib), w1)
                    else
                      case create_repo env a False w1 of
                        (Inl err, w2) \<Rightarrow> (Inl err, w2)
                      | (Inr created, w2) \<Rightarrow>
                          if created then (Inr (a, commit_msg, lib), w2)
                          else (Inl (SystemExit 1), w2))"

definition scan :: "(string \<Rightarrow> string) \<Rightarrow> config \<Rightarrow> node list \<Rightarrow> (abs_path \<times> string) list" where
  "scan lower cfg lib =
     collect_files lower lib (extensions cfg) (ignore_dirs cfg) (max_file_size_mb cfg)"

definition load_cache :: "world \<Rightarrow> cache" where
  "load_cache w = (case cache_file w of None \<Rightarrow> [] | Some c \<Rightarrow> c)"

definition run_sync :: "config \<Rightarrow> env \<Rightarrow> world \<Rightarrow> (error + stats) \<times> world" where
  "run_sync cfg env w =
     (case preflight cfg env w of
        (Inl err, w1) \<Rightarrow> (Inl err, w1)
      | (Inr (a, commit_msg, lib), w1) \<Rightarrow>
          case sync_loop cfg env a commit_msg (scan (str_lower env) cfg lib)
                 (\<lparr>uploaded = 0, skipped = 0, failed = 0, total = 0\<rparr>, load_cache w1) w1 of
            (Inl err, w2) \<Rightarrow> (Inl err, w2)
          | (Inr (s, cache), w2) \<Rightarrow>
              (Inr s, if dry_run cfg then w2 else w2\<lparr>cache_file := Some cache\<rparr>))"

subsection \<open>Concrete scenarios\<close>

text \<open>
  Small inputs on which the definitions are evaluated. \<open>demo_lib\<close> is the library of
  the specification's scenario: \<^verbatim>\<open>a.py\<close>, \<^verbatim>\<open>build/b.py\<close> and \<^verbatim>\<open>c.bin\<close>. The
  digest of the scenarios writes every byte as two hexadecimal digits; the properties
  below hold for every digest function.
\<close>

definition a_py :: local_file where
  "a_py = \<lparr>fname = ''a.py'', st_size = 3, fdata = Inr [0x61, 0x62, 0x0A]\<rparr>"

definition b_py :: local_file where
  "b_py = \<lparr>fname = ''b.py'', st_size = 2, fdata = Inr [0x62, 0x0A]\<rparr>"

definition c_bin :: local_file where
  "c_bin = \<lparr>fname = ''c.bin'', st_size = 1, fdata = Inr [0x00]\<rparr>"

definition empty_py :: local_file where
  "empty_py = \<lparr>fname = ''empty.py'', st_size = 0, fdata = Inr []\<rparr>"

definition locked_py :: local_file where
  "locked_py = \<lparr>fname = ''locked.py'', st_size = 3, fdata = Inl OSError\<rparr>"

definition demo_lib :: "node list" where
  "demo_lib = [File a_py, Dir ''build'' [File b_py], File c_bin]"

definition nested_lib :: "node list" where
  "nested_lib = [Dir ''src'' [File a_py, Dir ''build'' [File b_py]], File c_bin]"

text \<open>
  The \<^verbatim>\<open>str.lower\<close> of the scenarios lower-cases the ASCII letters and leaves every
  other byte as it is, which is what \<^verbatim>\<open>str.lower\<close> does on ASCII text.
\<close>

definition ascii_lower_char :: "char \<Rightarrow> char" where
  "ascii_lower_char c =
     (let n = (of_char c :: nat) in if 65 \<le> n \<and> n \<le> 90 then char_of (n + 32) else c)"

definition ascii_lower :: "string \<Rightarrow> string" where
  "ascii_lower s = map ascii_lower_char s"

definition demo_md5 :: "byte list \<Rightarrow> string" where
  "demo_md5 bytes =
     concat (map (\<lambda>b. [''0123456789abcdef'' ! (unat b div 16),
                          ''0123456789abcdef'' ! (unat b mod 16)]) bytes)"

text \<open>
  The configuration of the scenarios. Its commit template has no replacement field, so
  \<^verbatim>\<open>str.format\<close> returns it as it is, which is all the formatter of the scenarios does.
\<close>

definition demo_cfg :: config where
  "demo_cfg =
     \<lparr>github_token = ''t'', github_username = ''u'', repo_name = ''r'',
      library_path = ''/lib'', branch = ''main'', commit_message = ''Auto-sync'',
      extensions = [''.py''], ignore_dirs = [''build''], max_file_size_mb = 10,
      dry_run = False\<rparr>"

definition preview_cfg :: config where
  "preview_cfg = demo_cfg\<lparr>dry_run := True\<rparr>"

definition locked_first :: "node list" where
  "locked_first = [File locked_py, File a_py]"

definition locked_middle :: "node list" where
  "locked_middle = [File a_py, File locked_py, File b_py]"

text \<open>
  A library in which two files have the same repo path: a file of the root whose name
  holds a backslash, \<^verbatim>\<open>a\b.py\<close>, and the file \<^verbatim>\<open>b.py\<close> of the directory
  \<^verbatim>\<open>a\<close>.
\<close>

definition backslash_py :: local_file where
  "backslash_py =
     \<lparr>fname = CHR ''a'' # CHR 0x5C # ''b.py'', st_size = 3, fdata = Inr [0x61, 0x62, 0x0A]\<rparr>"

definition colliding :: "node list" where
  "colliding = [File backslash_py, Dir ''a'' [File b_py]]"



definition demo_api :: api where
  "demo_api = GitHubAPI ''t'' ''u'' ''r'' ''main''"

text \<open>
  A remote service for the scenarios: it answers the repository check (the GET without
  query parameters) with the status \<open>repo_status\<close>, a lookup (the GET with the
  \<^verbatim>\<open>ref\<close> parameter) with the response \<open>lookup\<close>, a PUT with the status
  \<open>put_status\<close>, and a POST with 201.
\<close>

definition plain :: "int \<Rightarrow> response" where
  "plain code = \<lparr>status_code = code, json = Inr (JObject Map.empty)\<rparr>"

definition found :: "int \<Rightarrow> string \<Rightarrow> response" where
  "found code token = \<lparr>status_code = code, json = Inr (JObject [''sha'' \<mapsto> token])\<rparr>"

definition demo_remote :: "int \<Rightarrow> response \<Rightarrow> int \<Rightarrow> request list \<Rightarrow> request \<Rightarrow> error + response" where
  "demo_remote repo_status lookup put_status history req =
     (case req of
        GET u h params \<Rightarrow> Inr (if params = [] then plain repo_status else lookup)
      | PUT u h payload \<Rightarrow> Inr (plain put_status)
      | POST u h payload \<Rightarrow> Inr (plain 201))"



definition demo_env :: "node list \<Rightarrow> (request list \<Rightarrow> request \<Rightarrow> error + response) \<Rightarrow> env" where
  "demo_env lib service =
     \<lparr>library = Some lib, remote = service, now = ''2024-01-01 09:00'',
      str_format = (\<lambda>template date. Inr template), str_lower = ascii_lower,
      md5_hex = demo_md5\<rparr>"

definition fresh :: world where
  "fresh = \<lparr>cache_file = None, net_log = []\<rparr>"

section \<open>Properties\<close>

subsection \<open>The fingerprint\<close>

lemma read_loop_feeds_all: "read_loop rest h = h\<lparr>fed := fed h @ rest\<rparr>"
proof (induction rest h rule: read_loop.induct)
  case (1 rest h)
  show ?case
  proof (cases "take 65536 rest = []")
    case True
    then have "rest = []"
      by auto
    then show ?thesis
      by (subst read_loop.simps) simp
  next
    case False
    have "read_loop rest h = read_loop (drop 65536 rest) (md5_update h (take 65536 rest))"
      using False by (subst read_loop.simps) (simp add: Let_def)
    also have "\<dots> = (md5_update h (take 65536 rest))
        \<lparr>fed := fed (md5_update h (take 65536 rest)) @ drop 65536 rest\<rparr>"
      using False by (intro "1.IH") simp_all
    also have "\<dots> = h\<lparr>fed := fed h @ rest\<rparr>"
      by (simp add: md5_update_def)
    finally show ?thesis .
  qed
qed

lemma file_md5_eq: "fdata (snd p) = Inr bytes \<Longrightarrow> file_md5 d p = Inr (d bytes)"
  unfolding file_md5_def hexdigest_def md5_new_def
  by (simp only: read_loop_feeds_all sum.case) simp

text \<open>
  C9. Fingerprint determinism and chunking equivalence: the fingerprint of a readable
  file, streamed in 64 KiB chunks through the incremental digest, is the digest of the
  file's whole content taken at once; it is a function of the content alone, so two
  files with the same bytes have the same fingerprint, whatever their names and places.
\<close>

theorem file_md5_chunking:
  "fdata (snd p) = Inr bytes \<Longrightarrow>
     file_md5 md5 p = Inr (md5_at_once md5 bytes) \<and>
     md5_at_once md5 bytes = md5 bytes \<and>
     (\<forall>q. fdata (snd q) = Inr bytes \<longrightarrow> file_md5 md5 q = file_md5 md5 p)"
proof -
  assume readable: "fdata (snd p) = Inr bytes"
  have streamed: "file_md5 md5 q = Inr (md5 bytes)" if "fdata (snd q) = Inr bytes" for q
    unfolding file_md5_def hexdigest_def md5_new_def
    by (simp only: that read_loop_feeds_all sum.case) simp
  have once: "md5_at_once md5 bytes = md5 bytes"
    by (simp add: md5_at_once_def hexdigest_def md5_update_def md5_new_def)
  show ?thesis
    using streamed [OF readable] streamed once by simp
qed

theorem file_md5_chunking_witness:
  "fdata (snd ([''src''], a_py)) = Inr [0x61, 0x62, 0x0A]
   \<and> file_md5 demo_md5 ([''src''], a_py) = Inr (md5_at_once demo_md5 [0x61, 0x62, 0x0A])
   \<and> md5_at_once demo_md5 [0x61, 0x62, 0x0A] = ''61620a''"
proof -
  have readable: "fdata (snd ([''src''], a_py)) = Inr [0x61, 0x62, 0x0A]"
    by (simp add: a_py_def)
  have digest: "demo_md5 [0x61, 0x62, 0x0A] = ''61620a''"
    by (simp add: demo_md5_def)
  from file_md5_chunking [OF readable, of demo_md5] readable digest show ?thesis
    by simp
qed

subsection \<open>The scanner\<close>

lemma scan_files_iff:
  "((ds, f), rp) \<in> set (scan_files lw exts mb r nodes) \<longleftrightarrow>
     ds = r \<and> File f \<in> set nodes \<and> ext_ok lw exts (fname f) \<and> int (st_size f) \<le> mb
     \<and> rp = repo_path_of r (fname f)"
  by (induction lw exts mb r nodes rule: scan_files.induct) auto

lemma walk_dirs_sound:
  "((ds, f), rp) \<in> set (walk_dirs lw exts ign mb r nodes) \<Longrightarrow>
     (\<forall>d \<in> set ds. d \<in> set r \<or> d \<notin> set ign) \<and> int (st_size f) \<le> mb"
proof (induction lw exts ign mb r nodes rule: walk_dirs.induct)
  case (1 lw exts ign mb r)
  then show ?case by simp
next
  case (2 lw exts ign mb r f' ns)
  then show ?case by simp
next
  case (3 lw exts ign mb r d children ns)
  show ?case
  proof (cases "d \<in> set ign")
    case True
    with 3 show ?thesis by simp
  next
    case False
    from "3.prems" False consider
        (here) "((ds, f), rp) \<in> set (scan_files lw exts mb (r @ [d]) children)"
      | (below) "((ds, f), rp) \<in> set (walk_dirs lw exts ign mb (r @ [d]) children)"
      | (later) "((ds, f), rp) \<in> set (walk_dirs lw exts ign mb r ns)"
      by auto
    then show ?thesis
    proof cases
      case here
      then show ?thesis using False by (auto simp: scan_files_iff)
    next
      case below
      from "3.IH"(1) [OF False below] show ?thesis using False by auto
    next
      case later
      from "3.IH"(2) [OF later] show ?thesis .
    qed
  qed
qed

lemma walk_dirs_complete:
  "file_at nodes (d # ds) f \<Longrightarrow> \<forall>x \<in> set (d # ds). x \<notin> set ign \<Longrightarrow>
   ext_ok lw exts (fname f) \<Longrightarrow> int (st_size f) \<le> mb \<Longrightarrow>
   ((r @ d # ds, f), repo_path_of (r @ d # ds) (fname f)) \<in> set (walk_dirs lw exts ign mb r nodes)"
proof (induction lw exts ign mb r nodes arbitrary: d ds rule: walk_dirs.induct)
  case (1 lw exts ign mb r)
  then show ?case by simp
next
  case (2 lw exts ign mb r f' ns)
  from "2.prems"(1) have "file_at ns (d # ds) f" by auto
  from "2.IH" [OF this "2.prems"(2-4)] show ?case by simp
next
  case (3 lw exts ign mb r d' children ns)
  from "3.prems"(1) obtain ch where ch: "Dir d ch \<in> set (Dir d' children # ns)" "file_at ch ds f"
    by auto
  show ?case
  proof (cases "Dir d ch = Dir d' children")
    case same: True
    then have [simp]: "d' = d" "children = ch" by simp_all
    have notign: "d \<notin> set ign" using "3.prems"(2) by simp
    show ?thesis
    proof (cases ds)
      case Nil
      with ch(2) have "File f \<in> set ch" by simp
      then have "((r @ [d], f), repo_path_of (r @ [d]) (fname f)) \<in> set (scan_files lw exts mb (r @ [d]) ch)"
        using "3.prems"(3,4) by (simp add: scan_files_iff)
      then show ?thesis using notign Nil by simp
    next
      case (Cons e es)
      have "(((r @ [d]) @ e # es, f), repo_path_of ((r @ [d]) @ e # es) (fname f))
          \<in> set (walk_dirs lw exts ign mb (r @ [d]) children)"
        using "3.IH"(1) [of e es] notign ch(2) "3.prems"(2-4) Cons by simp
      then show ?thesis using notign Cons by simp
    qed
  next
    case False
    with ch(1) have "Dir d ch \<in> set ns" by auto
    with ch(2) have "file_at ns (d # ds) f" by auto
    from "3.IH"(2) [OF this "3.prems"(2-4)] show ?thesis by simp
  qed
qed

lemma collect_files_sound:
  "((ds, f), rp) \<in> set (collect_files lw lib exts ign max_mb) \<Longrightarrow>
     (\<forall>d \<in> set ds. d \<notin> set ign) \<and> int (st_size f) \<le> max_bytes max_mb"
  using walk_dirs_sound [of ds f rp lw exts ign "max_bytes max_mb" "[]" lib]
  by (auto simp: collect_files_def scan_files_iff)

lemma collect_files_complete:
  "file_at lib ds f \<Longrightarrow> \<forall>x \<in> set ds. x \<notin> set ign \<Longrightarrow>
   ext_ok lw exts (fname f) \<Longrightarrow> int (st_size f) \<le> max_bytes max_mb \<Longrightarrow>
   ((ds, f), repo_path_of ds (fname f)) \<in> set (collect_files lw lib exts ign max_mb)"
proof (cases ds)
  case Nil
  assume "file_at lib ds f" "ext_ok lw exts (fname f)" "int (st_size f) \<le> max_bytes max_mb"
  then show ?thesis using Nil by (simp add: collect_files_def scan_files_iff)
next
  case (Cons d ds')
  assume "file_at lib ds f" "\<forall>x \<in> set ds. x \<notin> set ign"
    "ext_ok lw exts (fname f)" "int (st_size f) \<le> max_bytes max_mb"
  then show ?thesis
    using walk_dirs_complete [of lib d ds' f ign lw exts "max_bytes max_mb" "[]"] Cons
    by (simp add: collect_files_def)
qed

lemma max_bytes_nonneg: "0 \<le> max_mb \<Longrightarrow> of_int (max_bytes max_mb) \<le> max_mb * 1048576"
proof -
  assume "0 \<le> max_mb"
  then have "0 \<le> max_mb * 1024 * 1024" by simp
  then have "max_bytes max_mb = \<lfloor>max_mb * 1024 * 1024\<rfloor>"
    by (simp only: max_bytes_def py_int_def if_True)
  moreover have "of_int \<lfloor>max_mb * 1024 * 1024\<rfloor> \<le> max_mb * 1024 * 1024"
    by (rule of_int_floor_le)
  moreover have "max_mb * 1024 * 1024 = max_mb * 1048576"
    by simp
  ultimately show ?thesis by (simp only:)
qed

lemma max_bytes_exact: "of_nat n = max_mb * 1048576 \<Longrightarrow> max_bytes max_mb = int n"
proof -
  assume "of_nat n = max_mb * 1048576"
  then have eq: "max_mb * 1024 * 1024 = of_nat n" by simp
  have "py_int (of_nat n) = int n"
    by (simp add: py_int_def)
  then show ?thesis
    by (simp only: max_bytes_def eq)
qed


text \<open>
  What the scanner filters: every yielded file has no directory of the deny-list among
  the directories leading to it from the library root, whatever its extension, and its
  size is at most \<^verbatim>\<open>max_bytes\<close>. For a limit that is not negative, no yielded file
  is larger than the limit times 1,048,576.
\<close>

lemma collect_files_filters:
  "((ds, f), rp) \<in> set (collect_files lw lib exts ign max_mb) \<Longrightarrow>
     (\<forall>d \<in> set ds. d \<notin> set ign) \<and> int (st_size f) \<le> max_bytes max_mb
     \<and> (0 \<le> max_mb \<longrightarrow> of_nat (st_size f) \<le> max_mb * 1048576)"
proof -
  assume yielded: "((ds, f), rp) \<in> set (collect_files lw lib exts ign max_mb)"
  from collect_files_sound [OF yielded]
  have dirs: "\<forall>d \<in> set ds. d \<notin> set ign" and size: "int (st_size f) \<le> max_bytes max_mb"
    by simp_all
  have "of_nat (st_size f) \<le> max_mb * 1048576" if "0 \<le> max_mb"
  proof -
    have "(of_nat (st_size f) :: rat) = of_int (int (st_size f))" by simp
    also have "\<dots> \<le> of_int (max_bytes max_mb)" using size by (simp only: of_int_le_iff)
    also have "\<dots> \<le> max_mb * 1048576" using that by (rule max_bytes_nonneg)
    finally show ?thesis .
  qed
  with dirs size show ?thesis by simp
qed

lemma collect_files_filters_example:
  "(([''src''], a_py), ''src/a.py'') \<in> set (collect_files ascii_lower nested_lib [''.py''] [''build''] 10)
   \<and> ''src'' \<notin> set [''build''] \<and> int (st_size a_py) \<le> max_bytes 10
   \<and> (0::rat) \<le> 10 \<and> (of_nat (st_size a_py) :: rat) \<le> 10 * 1048576
   \<and> map snd (collect_files ascii_lower nested_lib [''.py''] [''build''] 10) = [''src/a.py'']"
proof -
  have yielded: "(([''src''], a_py), ''src/a.py'') \<in> set (collect_files ascii_lower nested_lib [''.py''] [''build''] 10)"
    by code_simp
  have only: "map snd (collect_files ascii_lower nested_lib [''.py''] [''build''] 10) = [''src/a.py'']"
    by code_simp
  from collect_files_filters [OF yielded] yielded only show ?thesis
    by simp
qed

text \<open>
  C8. Filter exclusivity: a file under a directory of the deny-list is never yielded,
  and a file whose size exceeds \<^verbatim>\<open>max_file_size_mb\<close> times 1,048,576 bytes is never
  yielded. The scanner keeps both for every limit that is not negative
  (\<open>collect_files_filters\<close>). It misses the second for a negative limit with a fraction
  of a byte: \<^verbatim>\<open>int()\<close> truncates towards zero, so \<^verbatim>\<open>int(-0.5)\<close> is 0, and an
  empty file, whose size 0 exceeds the limit of -0.5 bytes, is yielded, against the
  comment of the configuration, \<^verbatim>\<open>Skip files larger than this\<close>.
\<close>

theorem negative_limit_yields_empty_file:
  "(([], empty_py), ''empty.py'') \<in> set (collect_files ascii_lower [File empty_py] [''.py''] [''build''] (- 1 / 2097152))
   \<and> (of_nat (st_size empty_py) :: rat) > (- 1 / 2097152) * 1048576"
  by code_simp

text \<open>
  C10. Size-limit boundary: a file in the snapshot that is under no ignored directory,
  has an allowed extension and whose size is exactly the limit times 1,048,576 is
  yielded: the test of line 146 is a strict \<^verbatim>\<open>>\<close>.
\<close>

theorem size_limit_boundary:
  "file_at lib ds f \<Longrightarrow> \<forall>d \<in> set ds. d \<notin> set ign \<Longrightarrow> ext_ok lw exts (fname f) \<Longrightarrow>
   of_nat (st_size f) = max_mb * 1048576 \<Longrightarrow>
   ((ds, f), repo_path_of ds (fname f)) \<in> set (collect_files lw lib exts ign max_mb)
   \<and> \<not> int (st_size f) > max_bytes max_mb"
proof -
  assume place: "file_at lib ds f" and dirs: "\<forall>d \<in> set ds. d \<notin> set ign"
    and ext: "ext_ok lw exts (fname f)" and size: "of_nat (st_size f) = max_mb * 1048576"
  from max_bytes_exact [OF size] have limit: "int (st_size f) \<le> max_bytes max_mb"
    by simp
  from collect_files_complete [OF place dirs ext limit] limit show ?thesis
    by simp
qed

theorem size_limit_boundary_witness:
  "file_at nested_lib [''src''] a_py \<and> ''src'' \<notin> set [''build''] \<and> ext_ok ascii_lower [''.PY''] (fname a_py)
   \<and> (of_nat (st_size a_py) :: rat) = 3 / 1048576 * 1048576
   \<and> (([''src''], a_py), ''src/a.py'') \<in> set (collect_files ascii_lower nested_lib [''.PY''] [''build''] (3 / 1048576))"
proof -
  have place: "file_at nested_lib [''src''] a_py"
    by (simp add: nested_lib_def)
  have dirs: "\<forall>d \<in> set [''src'']. d \<notin> set [''build'']"
    by simp
  have ext: "ext_ok ascii_lower [''.PY''] (fname a_py)"
    by code_simp
  have size: "(of_nat (st_size a_py) :: rat) = 3 / 1048576 * 1048576"
    by (simp add: a_py_def)
  have "repo_path_of [''src''] (fname a_py) = ''src/a.py''"
    by code_simp
  with size_limit_boundary [OF place dirs ext size] place ext size show ?thesis
    by simp
qed

subsection \<open>The loop body and the loop\<close>

lemma get_file_sha_world:
  "snd (get_file_sha env a rp w) = w\<lparr>net_log := net_log w @ [get_request a rp]\<rparr>"
  by (simp add: get_file_sha_def send_def split: sum.splits json_doc.splits)

lemma put_file_eq:
  "put_file env a rp content msg sha w =
     (case remote env (net_log w) (put_request a rp content msg sha) of
        Inl err \<Rightarrow> Inl err
      | Inr r \<Rightarrow> Inr (status_code r = 200 \<or> status_code r = 201),
      w\<lparr>net_log := net_log w @ [put_request a rp content msg sha]\<rparr>)"
  by (simp add: put_file_def send_def split: sum.splits)

lemma put_file_world:
  "snd (put_file env a rp content msg sha w)
     = w\<lparr>net_log := net_log w @ [put_request a rp content msg sha]\<rparr>"
  by (simp add: put_file_eq)

lemma ensure_repo_exists_world:
  "snd (ensure_repo_exists env a w) = w\<lparr>net_log := net_log w @ [repo_request a]\<rparr>"
  by (simp add: ensure_repo_exists_def send_def split: sum.splits)

lemma create_repo_world:
  "snd (create_repo env a private w) = w\<lparr>net_log := net_log w @ [create_request a private]\<rparr>"
  by (simp add: create_repo_def send_def split: sum.splits)

lemma sync_file_md5_error:
  "file_md5 (md5_hex env) p = Inl err \<Longrightarrow> sync_file cfg env a msg (p, rp) sc w = (Inl err, w)"
  by (cases sc) (simp add: sync_file_def)

lemma sync_file_skip:
  "file_md5 (md5_hex env) p = Inr m \<Longrightarrow> map_of c rp = Some m \<Longrightarrow>
   sync_file cfg env a msg (p, rp) (s, c) w
     = (Inr (s\<lparr>total := total s + 1, skipped := skipped s + 1\<rparr>, c), w)"
  by (simp add: sync_file_def)

lemma sync_file_dry:
  "file_md5 (md5_hex env) p = Inr m \<Longrightarrow> map_of c rp \<noteq> Some m \<Longrightarrow> dry_run cfg \<Longrightarrow>
   sync_file cfg env a msg (p, rp) (s, c) w
     = (Inr (s\<lparr>total := total s + 1, uploaded := uploaded s + 1\<rparr>, c), w)"
  by (simp add: sync_file_def)

lemma file_md5_readable:
  "file_md5 d p = Inr m \<Longrightarrow> \<exists>content. read_bytes p = Inr content"
  by (auto simp: file_md5_def read_bytes_def split: sum.splits)

lemma sync_file_put:
  "file_md5 (md5_hex env) p = Inr m \<Longrightarrow> map_of c rp \<noteq> Some m \<Longrightarrow> \<not> dry_run cfg \<Longrightarrow>
   get_file_sha env a rp w = (Inr sha, w1) \<Longrightarrow> read_bytes p = Inr content \<Longrightarrow>
   sync_file cfg env a msg (p, rp) (s, c) w =
     (case put_file env a rp content msg sha w1 of
        (Inl err, w2) \<Rightarrow> (Inl err, w2)
      | (Inr ok, w2) \<Rightarrow>
          if ok then (Inr (s\<lparr>total := total s + 1, uploaded := uploaded s + 1\<rparr>,
                           AList.update rp m c), w2)
          else (Inr (s\<lparr>total := total s + 1, failed := failed s + 1\<rparr>, c), w2))"
  by (simp add: sync_file_def split: prod.splits sum.splits)

lemma sync_file_lookup_error:
  "file_md5 (md5_hex env) p = Inr m \<Longrightarrow> map_of c rp \<noteq> Some m \<Longrightarrow> \<not> dry_run cfg \<Longrightarrow>
   get_file_sha env a rp w = (Inl err, w1) \<Longrightarrow>
   sync_file cfg env a msg (p, rp) (s, c) w = (Inl err, w1)"
  by (simp add: sync_file_def)

text \<open>The outcomes of one pass through the loop body.\<close>

lemma sync_file_outcome:
  assumes "sync_file cfg env a msg (p, rp) (s, c) w = (Inr (s', c'), w')"
  obtains
    (skipped) m where "file_md5 (md5_hex env) p = Inr m" "map_of c rp = Some m"
      "s' = s\<lparr>total := total s + 1, skipped := skipped s + 1\<rparr>" "c' = c" "w' = w"
  | (preview) m where "file_md5 (md5_hex env) p = Inr m" "map_of c rp \<noteq> Some m" "dry_run cfg"
      "s' = s\<lparr>total := total s + 1, uploaded := uploaded s + 1\<rparr>" "c' = c" "w' = w"
  | (uploaded) m sha content where "file_md5 (md5_hex env) p = Inr m" "map_of c rp \<noteq> Some m"
      "\<not> dry_run cfg" "read_bytes p = Inr content"
      "s' = s\<lparr>total := total s + 1, uploaded := uploaded s + 1\<rparr>"
      "c' = AList.update rp m c"
      "net_log w' = net_log w @ [get_request a rp, put_request a rp content msg sha]"
      "cache_file w' = cache_file w"
  | (failed) m sha content where "file_md5 (md5_hex env) p = Inr m" "map_of c rp \<noteq> Some m"
      "\<not> dry_run cfg" "read_bytes p = Inr content"
      "s' = s\<lparr>total := total s + 1, failed := failed s + 1\<rparr>" "c' = c"
      "net_log w' = net_log w @ [get_request a rp, put_request a rp content msg sha]"
      "cache_file w' = cache_file w"
proof (cases "file_md5 (md5_hex env) p")
  case (Inl err)
  from sync_file_md5_error [OF this] assms show ?thesis by simp
next
  case md5: (Inr m)
  show ?thesis
  proof (cases "map_of c rp = Some m")
    case True
    from sync_file_skip [OF md5 True] assms skipped [OF md5 True] show ?thesis by simp
  next
    case changed: False
    show ?thesis
    proof (cases "dry_run cfg")
      case True
      from sync_file_dry [OF md5 changed True] assms preview [OF md5 changed True]
      show ?thesis by simp
    next
      case real: False
      obtain r1 w1 where look: "get_file_sha env a rp w = (r1, w1)"
        by (cases "get_file_sha env a rp w")
      then have w1: "w1 = w\<lparr>net_log := net_log w @ [get_request a rp]\<rparr>"
        using get_file_sha_world [of env a rp w] by simp
      show ?thesis
      proof (cases r1)
        case (Inl err)
        from sync_file_lookup_error [OF md5 changed real look [unfolded Inl]] assms
        show ?thesis by simp
      next
        case (Inr sha)
        from file_md5_readable [OF md5] obtain content where rd: "read_bytes p = Inr content"
          by blast
        note step = sync_file_put [OF md5 changed real look [unfolded Inr] rd, of msg s]
        obtain r2 w2 where put: "put_file env a rp content msg sha w1 = (r2, w2)"
          by (cases "put_file env a rp content msg sha w1")
        then have w2: "w2 = w1\<lparr>net_log := net_log w1 @ [put_request a rp content msg sha]\<rparr>"
          using put_file_world [of env a rp content msg sha w1] by simp
        show ?thesis
        proof (cases r2)
          case (Inl err)
          with assms step put show ?thesis by simp
        next
          case ok: (Inr ok)
          show ?thesis
          proof (cases ok)
            case True
            with assms step put ok have "s' = s\<lparr>total := total s + 1, uploaded := uploaded s + 1\<rparr>"
              "c' = AList.update rp m c" "w' = w2"
              by simp_all
            with uploaded [OF md5 changed real rd, of sha] w1 w2 show ?thesis by simp
          next
            case False
            with assms step put ok have "s' = s\<lparr>total := total s + 1, failed := failed s + 1\<rparr>"
              "c' = c" "w' = w2"
              by simp_all
            with failed [OF md5 changed real rd, of sha] w1 w2 show ?thesis by simp
          qed
        qed
      qed
    qed
  qed
qed

lemma sync_loop_Cons_Inr:
  assumes "sync_loop cfg env a msg (e # es) sc w = (Inr sc', w')"
  obtains sc1 w1 where "sync_file cfg env a msg e sc w = (Inr sc1, w1)"
    and "sync_loop cfg env a msg es sc1 w1 = (Inr sc', w')"
proof (cases "sync_file cfg env a msg e sc w")
  case (Pair r w1)
  show ?thesis
  proof (cases r)
    case (Inl err)
    with assms Pair show ?thesis by simp
  next
    case (Inr sc1)
    with assms Pair that show ?thesis by simp
  qed
qed

lemma sync_file_counters:
  assumes "sync_file cfg env a msg (p, rp) (s, c) w = (Inr (s', c'), w')"
  shows "total s' = total s + 1"
    and "uploaded s' + skipped s' + failed s' = uploaded s + skipped s + failed s + 1"
    and "(uploaded s' = uploaded s + 1 \<and> skipped s' = skipped s \<and> failed s' = failed s)
       \<or> (uploaded s' = uploaded s \<and> skipped s' = skipped s + 1 \<and> failed s' = failed s)
       \<or> (uploaded s' = uploaded s \<and> skipped s' = skipped s \<and> failed s' = failed s + 1)"
  using assms by (cases rule: sync_file_outcome; simp)+

lemma sync_loop_counters:
  "sync_loop cfg env a msg es (s, c) w = (Inr (s', c'), w') \<Longrightarrow>
     total s' = total s + length es
     \<and> uploaded s' + skipped s' + failed s' = uploaded s + skipped s + failed s + length es
     \<and> uploaded s \<le> uploaded s' \<and> skipped s \<le> skipped s' \<and> failed s \<le> failed s'"
proof (induction es arbitrary: s c w)
  case Nil
  then show ?case by simp
next
  case (Cons e es)
  obtain p rp where e: "e = (p, rp)" by (cases e)
  from Cons.prems obtain sc1 w1
    where step: "sync_file cfg env a msg e (s, c) w = (Inr sc1, w1)"
      and rest: "sync_loop cfg env a msg es sc1 w1 = (Inr (s', c'), w')"
    by (rule sync_loop_Cons_Inr)
  obtain s1 c1 where sc1: "sc1 = (s1, c1)" by (cases sc1)
  note one = sync_file_counters [OF step [unfolded e sc1]]
  from Cons.IH [OF rest [unfolded sc1]] one show ?case
    by auto
qed

lemma preflight_Inr:
  assumes "preflight cfg env w = (Inr (a, msg, lib), w1)"
  shows "library env = Some lib"
    and "a = GitHubAPI (github_token cfg) (github_username cfg) (repo_name cfg) (branch cfg)"
    and "cache_file w1 = cache_file w"
proof -
  let ?a = "GitHubAPI (github_token cfg) (github_username cfg) (repo_name cfg) (branch cfg)"
  have e: "cache_file (snd (ensure_repo_exists env ?a w)) = cache_file w"
    by (simp add: ensure_repo_exists_world)
  have c: "cache_file (snd (create_repo env ?a False w')) = cache_file w'" for w'
    by (simp add: create_repo_world)
  from assms show "library env = Some lib"
    by (auto simp: preflight_def Let_def split: sum.splits option.splits if_splits prod.splits)
  from assms show "a = ?a"
    by (auto simp: preflight_def Let_def split: sum.splits option.splits if_splits prod.splits)
  from assms e c show "cache_file w1 = cache_file w"
    by (auto simp: preflight_def Let_def split: sum.splits option.splits if_splits prod.splits)
      (metis snd_conv)+
qed


subsection \<open>Evaluating the scenarios\<close>

lemma scan_demo: "scan ascii_lower demo_cfg demo_lib = [(([], a_py), ''a.py'')]"
  by code_simp

lemma md5_a_py: "file_md5 demo_md5 ([], a_py) = Inr ''61620a''"
  by (simp add: file_md5_eq [of _ "[0x61, 0x62, 0x0A]"] a_py_def demo_md5_def)

lemma read_a_py: "read_bytes ([], a_py) = Inr [0x61, 0x62, 0x0A]"
  by (simp add: read_bytes_def a_py_def)

lemma demo_env_simps:
  "library (demo_env lib service) = Some lib"
  "remote (demo_env lib service) = service"
  "md5_hex (demo_env lib service) = demo_md5"
  "str_lower (demo_env lib service) = ascii_lower"
  "str_format (demo_env lib service) t d = Inr t"
  by (simp_all add: demo_env_def)

lemma demo_cfg_simps:
  "dry_run demo_cfg = False"
  "dry_run (demo_cfg\<lparr>dry_run := True\<rparr>) = True"
  by (simp_all add: demo_cfg_def)

lemma get_file_sha_demo:
  "get_file_sha (demo_env lib (demo_remote rs (plain code) ps)) a rp w
     = (Inr None, w\<lparr>net_log := net_log w @ [get_request a rp]\<rparr>)"
  "get_file_sha (demo_env lib (demo_remote rs (found code token) ps)) a rp w
     = (Inr (if code = 200 then Some token else None),
        w\<lparr>net_log := net_log w @ [get_request a rp]\<rparr>)"
  by (simp_all add: get_file_sha_def send_def demo_env_simps demo_remote_def get_request_def
      plain_def found_def)

lemma put_file_demo:
  "put_file (demo_env lib (demo_remote rs l ps)) a rp content msg sha w
     = (Inr (ps = 200 \<or> ps = 201),
        w\<lparr>net_log := net_log w @ [put_request a rp content msg sha]\<rparr>)"
  by (simp add: put_file_eq demo_env_simps demo_remote_def put_request_def plain_def)

lemma preflight_demo:
  "preflight demo_cfg (demo_env lib (demo_remote 200 l ps)) w
     = (Inr (demo_api, ''Auto-sync'', lib), w\<lparr>net_log := net_log w @ [repo_request demo_api]\<rparr>)"
  by (simp add: preflight_def demo_cfg_def demo_env_def demo_remote_def plain_def demo_api_def
      ensure_repo_exists_def send_def Let_def repo_request_def)

lemma run_first:
  "run_sync demo_cfg (demo_env demo_lib (demo_remote 200 (plain 404) 201)) fresh
     = (Inr \<lparr>uploaded = 1, skipped = 0, failed = 0, total = 1\<rparr>,
        \<lparr>cache_file = Some [(''a.py'', ''61620a'')],
         net_log = [repo_request demo_api, get_request demo_api ''a.py'',
                    put_request demo_api ''a.py'' [0x61, 0x62, 0x0A] ''Auto-sync'' None]\<rparr>)"
  by (simp add: run_sync_def preflight_demo scan_demo load_cache_def sync_file_def
      demo_env_simps demo_cfg_simps md5_a_py read_a_py get_file_sha_demo put_file_demo fresh_def)

subsection \<open>The run report\<close>

text \<open>
  C1. Counter conservation: when a run returns its report, the three outcome counters
  add up to \<^verbatim>\<open>total\<close>, and \<^verbatim>\<open>total\<close> is the number of files the scanner yielded.
  Each pass through the loop body adds one to \<^verbatim>\<open>total\<close> and one to exactly one of
  \<^verbatim>\<open>uploaded\<close>, \<^verbatim>\<open>skipped\<close> and \<^verbatim>\<open>failed\<close> (\<open>sync_file_counters\<close>).
\<close>

theorem run_sync_counter_conservation:
  "run_sync cfg env w = (Inr st, w') \<Longrightarrow>
     uploaded st + skipped st + failed st = total st
     \<and> (\<exists>lib. library env = Some lib \<and> total st = length (scan (str_lower env) cfg lib))"
proof -
  assume run: "run_sync cfg env w = (Inr st, w')"
  obtain r w1 where pre: "preflight cfg env w = (r, w1)"
    by (cases "preflight cfg env w")
  from run pre obtain a msg lib where r: "r = Inr (a, msg, lib)"
    by (cases r) (auto simp: run_sync_def)
  let ?s0 = "\<lparr>uploaded = 0, skipped = 0, failed = 0, total = 0\<rparr>"
  obtain r2 w2 where loop: "sync_loop cfg env a msg (scan (str_lower env) cfg lib) (?s0, load_cache w1) w1 = (r2, w2)"
    by (cases "sync_loop cfg env a msg (scan (str_lower env) cfg lib) (?s0, load_cache w1) w1")
  from run pre r loop obtain c' where r2: "r2 = Inr (st, c')"
    by (cases r2) (auto simp: run_sync_def)
  from sync_loop_counters [OF loop [unfolded r2]]
  have "total st = length (scan (str_lower env) cfg lib)" "uploaded st + skipped st + failed st = length (scan (str_lower env) cfg lib)"
    by simp_all
  moreover from preflight_Inr(1) [OF pre [unfolded r]] have "library env = Some lib" .
  ultimately show ?thesis by simp
qed

theorem run_sync_counter_conservation_witness:
  "fst (run_sync demo_cfg (demo_env demo_lib (demo_remote 200 (plain 404) 201)) fresh)
     = Inr \<lparr>uploaded = 1, skipped = 0, failed = 0, total = 1\<rparr>
   \<and> library (demo_env demo_lib (demo_remote 200 (plain 404) 201)) = Some demo_lib
   \<and> length (scan ascii_lower demo_cfg demo_lib) = 1"
  using run_sync_counter_conservation [OF run_first]
  by (simp add: run_first scan_demo demo_env_simps)

subsection \<open>What a run does to the world\<close>

lemma sync_file_world:
  "\<exists>new. snd (sync_file cfg env a msg e sc w) = w\<lparr>net_log := net_log w @ new\<rparr>
     \<and> (dry_run cfg \<longrightarrow> new = [])"
proof -
  obtain p rp s c where e: "e = (p, rp)" and sc: "sc = (s, c)"
    by (cases e, cases sc) blast
  have keep: "\<exists>new. w = w\<lparr>net_log := net_log w @ new\<rparr> \<and> (dry_run cfg \<longrightarrow> new = [])"
    by (rule exI [of _ "[]"]) simp
  show ?thesis
  proof (cases "file_md5 (md5_hex env) p")
    case (Inl err)
    from sync_file_md5_error [OF this] keep show ?thesis unfolding e by simp
  next
    case md5: (Inr m)
    show ?thesis
    proof (cases "map_of c rp = Some m")
      case True
      from sync_file_skip [OF md5 True] keep show ?thesis unfolding e sc by simp
    next
      case changed: False
      show ?thesis
      proof (cases "dry_run cfg")
        case True
        from sync_file_dry [OF md5 changed True] keep show ?thesis unfolding e sc by simp
      next
        case real: False
        obtain r1 w1 where look: "get_file_sha env a rp w = (r1, w1)"
          by (cases "get_file_sha env a rp w")
        then have w1: "w1 = w\<lparr>net_log := net_log w @ [get_request a rp]\<rparr>"
          using get_file_sha_world [of env a rp w] by simp
        show ?thesis
        proof (cases r1)
          case (Inl err)
          from sync_file_lookup_error [OF md5 changed real look [unfolded Inl]] w1 real
          show ?thesis unfolding e sc by auto
        next
          case (Inr sha)
          from file_md5_readable [OF md5] obtain content where rd: "read_bytes p = Inr content"
            by blast
          note step = sync_file_put [OF md5 changed real look [unfolded Inr] rd, of msg s]
          have "snd (sync_file cfg env a msg (p, rp) (s, c) w)
              = snd (put_file env a rp content msg sha w1)"
            unfolding step by (simp split: prod.splits sum.splits)
          also have "\<dots> = w\<lparr>net_log := net_log w @ [get_request a rp, put_request a rp content msg sha]\<rparr>"
            by (simp add: put_file_world w1)
          finally show ?thesis using real unfolding e sc by auto
        qed
      qed
    qed
  qed
qed

lemma sync_loop_world:
  "\<exists>new. snd (sync_loop cfg env a msg es sc w) = w\<lparr>net_log := net_log w @ new\<rparr>
     \<and> (dry_run cfg \<longrightarrow> new = [])"
proof (induction es arbitrary: sc w)
  case Nil
  show ?case by (simp add: exI [of _ "[]"])
next
  case (Cons e es)
  obtain r w1 where step: "sync_file cfg env a msg e sc w = (r, w1)"
    by (cases "sync_file cfg env a msg e sc w")
  from sync_file_world [of cfg env a msg e sc w] step obtain new1
    where w1: "w1 = w\<lparr>net_log := net_log w @ new1\<rparr>" and d1: "dry_run cfg \<longrightarrow> new1 = []"
    by auto
  show ?case
  proof (cases r)
    case (Inl err)
    with step w1 d1 show ?thesis by auto
  next
    case (Inr sc1)
    from Cons.IH [of sc1 w1] obtain new2
      where w2: "snd (sync_loop cfg env a msg es sc1 w1) = w1\<lparr>net_log := net_log w1 @ new2\<rparr>"
        and d2: "dry_run cfg \<longrightarrow> new2 = []"
      by auto
    have "snd (sync_loop cfg env a msg (e # es) sc w) = w\<lparr>net_log := net_log w @ (new1 @ new2)\<rparr>"
      using step Inr w2 w1 by simp
    with d1 d2 show ?thesis by (intro exI [of _ "new1 @ new2"]) simp
  qed
qed

lemma preflight_world:
  fixes cfg env w
  defines "a \<equiv> GitHubAPI (github_token cfg) (github_username cfg) (repo_name cfg) (branch cfg)"
  shows "snd (preflight cfg env w) = w
       \<or> snd (preflight cfg env w) = w\<lparr>net_log := net_log w @ [repo_request a]\<rparr>
       \<or> snd (preflight cfg env w)
           = w\<lparr>net_log := net_log w @ [repo_request a, create_request a False]\<rparr>"
proof -
  obtain r1 w1 where ens: "ensure_repo_exists env a w = (r1, w1)"
    by (cases "ensure_repo_exists env a w")
  then have w1: "w1 = w\<lparr>net_log := net_log w @ [repo_request a]\<rparr>"
    using ensure_repo_exists_world [of env a w] by simp
  obtain r2 w2 where cre: "create_repo env a False w1 = (r2, w2)"
    by (cases "create_repo env a False w1")
  then have w2: "w2 = w\<lparr>net_log := net_log w @ [repo_request a, create_request a False]\<rparr>"
    using create_repo_world [of env a False w1] w1 by simp
  show ?thesis
    using ens cre w1 w2 unfolding preflight_def Let_def a_def [symmetric]
    by (auto split: sum.splits option.splits)
qed

lemma sync_loop_cache_file:
  "cache_file (snd (sync_loop cfg env a msg es sc w)) = cache_file w"
proof -
  from sync_loop_world [of cfg env a msg es sc w] obtain new
    where "snd (sync_loop cfg env a msg es sc w) = w\<lparr>net_log := net_log w @ new\<rparr>"
    by blast
  then show ?thesis by simp
qed

lemma run_sync_dry_world: "dry_run cfg \<Longrightarrow> snd (run_sync cfg env w) = snd (preflight cfg env w)"
proof -
  assume dry: "dry_run cfg"
  obtain r w1 where pre: "preflight cfg env w = (r, w1)"
    by (cases "preflight cfg env w")
  show ?thesis
  proof (cases r)
    case (Inl err)
    with pre show ?thesis by (simp add: run_sync_def)
  next
    case (Inr x)
    obtain a msg lib where x: "x = (a, msg, lib)" by (cases x)
    let ?loop = "sync_loop cfg env a msg (scan (str_lower env) cfg lib)
      (\<lparr>uploaded = 0, skipped = 0, failed = 0, total = 0\<rparr>, load_cache w1) w1"
    from sync_loop_world [of cfg env a msg "scan (str_lower env) cfg lib" _ w1] dry
    have "snd ?loop = w1" by auto
    then show ?thesis
      using pre Inr x dry by (cases ?loop) (auto simp: run_sync_def split: sum.splits)
  qed
qed

lemma run_sync_cache_file_on_error:
  "fst (run_sync cfg env w) = Inl err \<Longrightarrow> cache_file (snd (run_sync cfg env w)) = cache_file w"
proof -
  assume failed: "fst (run_sync cfg env w) = Inl err"
  obtain r w1 where pre: "preflight cfg env w = (r, w1)"
    by (cases "preflight cfg env w")
  from preflight_world [of cfg env w] pre have c1: "cache_file w1 = cache_file w"
    by auto
  show ?thesis
  proof (cases r)
    case (Inl e)
    with pre c1 show ?thesis by (simp add: run_sync_def)
  next
    case (Inr x)
    obtain a msg lib where x: "x = (a, msg, lib)" by (cases x)
    let ?loop = "sync_loop cfg env a msg (scan (str_lower env) cfg lib)
      (\<lparr>uploaded = 0, skipped = 0, failed = 0, total = 0\<rparr>, load_cache w1) w1"
    have c2: "cache_file (snd ?loop) = cache_file w1"
      by (rule sync_loop_cache_file)
    obtain r2 w2 where loop: "?loop = (r2, w2)" by (cases ?loop)
    from failed pre Inr x loop obtain e where "r2 = Inl e"
      by (cases r2) (auto simp: run_sync_def)
    with pre Inr x loop c1 c2 show ?thesis by (simp add: run_sync_def)
  qed
qed

lemma scan_preview: "scan ascii_lower preview_cfg demo_lib = [(([], a_py), ''a.py'')]"
  by code_simp

lemma scan_locked_first:
  "scan ascii_lower demo_cfg locked_first = [(([], locked_py), ''locked.py''), (([], a_py), ''a.py'')]"
  by code_simp

lemma scan_locked_middle:
  "scan ascii_lower demo_cfg locked_middle
     = [(([], a_py), ''a.py''), (([], locked_py), ''locked.py''), (([], b_py), ''b.py'')]"
  by code_simp

lemma fresh_simps: "cache_file fresh = None" "net_log fresh = []"
  by (simp_all add: fresh_def)

lemma md5_locked_py: "file_md5 demo_md5 ([], locked_py) = Inl OSError"
  by (simp add: file_md5_def locked_py_def)

lemma preview_cfg_simps:
  "dry_run preview_cfg = True"
  "GitHubAPI (github_token preview_cfg) (github_username preview_cfg) (repo_name preview_cfg)
     (branch preview_cfg) = demo_api"
  by (simp_all add: preview_cfg_def demo_cfg_def demo_api_def)

lemma preflight_preview:
  "preflight preview_cfg (demo_env lib (demo_remote 200 l ps)) w
     = (Inr (demo_api, ''Auto-sync'', lib), w\<lparr>net_log := net_log w @ [repo_request demo_api]\<rparr>)"
  "preflight preview_cfg (demo_env lib (demo_remote 404 l ps)) w
     = (Inr (demo_api, ''Auto-sync'', lib),
        w\<lparr>net_log := net_log w @ [repo_request demo_api, create_request demo_api False]\<rparr>)"
  by (simp_all add: preflight_def preview_cfg_def demo_cfg_def demo_env_def demo_remote_def
      plain_def demo_api_def ensure_repo_exists_def create_repo_def send_def Let_def
      repo_request_def create_request_def)

lemma run_preview:
  "run_sync preview_cfg (demo_env demo_lib (demo_remote 200 (plain 404) 201)) fresh
     = (Inr \<lparr>uploaded = 1, skipped = 0, failed = 0, total = 1\<rparr>,
        \<lparr>cache_file = None, net_log = [repo_request demo_api]\<rparr>)"
  by (simp add: run_sync_def preflight_preview scan_preview load_cache_def sync_file_def
      demo_env_simps preview_cfg_simps md5_a_py fresh_def)

lemma run_preview_no_repo:
  "run_sync preview_cfg (demo_env demo_lib (demo_remote 404 (plain 404) 201)) fresh
     = (Inr \<lparr>uploaded = 1, skipped = 0, failed = 0, total = 1\<rparr>,
        \<lparr>cache_file = None,
         net_log = [repo_request demo_api, create_request demo_api False]\<rparr>)"
  by (simp add: run_sync_def preflight_preview scan_preview load_cache_def sync_file_def
      demo_env_simps preview_cfg_simps md5_a_py fresh_def)

lemma run_locked_first:
  "run_sync demo_cfg (demo_env locked_first (demo_remote 200 (plain 404) 201)) fresh
     = (Inl OSError, \<lparr>cache_file = None, net_log = [repo_request demo_api]\<rparr>)"
  by (simp add: run_sync_def preflight_demo scan_locked_first load_cache_def sync_file_def
      demo_env_simps md5_locked_py fresh_def)

subsection \<open>Dry runs\<close>

text \<open>
  C2. Dry-run purity, as the code has it: with \<^verbatim>\<open>dry_run\<close> set, a run leaves the
  persisted cache file as it was and sends no PUT and no lookup: whatever the run
  returns, the only requests it sends are those of the pre-flight check, the GET on the
  repository and, when that GET does not answer 200, the POST that creates the
  repository.
\<close>

theorem dry_run_effects:
  "dry_run cfg \<Longrightarrow>
     cache_file (snd (run_sync cfg env w)) = cache_file w
     \<and> (net_log (snd (run_sync cfg env w)) = net_log w
        \<or> net_log (snd (run_sync cfg env w)) = net_log w @
             [repo_request (GitHubAPI (github_token cfg) (github_username cfg) (repo_name cfg)
                (branch cfg))]
        \<or> net_log (snd (run_sync cfg env w)) = net_log w @
             [repo_request (GitHubAPI (github_token cfg) (github_username cfg) (repo_name cfg)
                (branch cfg)),
              create_request (GitHubAPI (github_token cfg) (github_username cfg) (repo_name cfg)
                (branch cfg)) False])"
proof -
  assume dry: "dry_run cfg"
  from preflight_world [of cfg env w] show ?thesis
    unfolding run_sync_dry_world [OF dry] by auto
qed


theorem dry_run_effects_witness:
  "dry_run preview_cfg
   \<and> fst (run_sync preview_cfg (demo_env demo_lib (demo_remote 200 (plain 404) 201)) fresh)
       = Inr \<lparr>uploaded = 1, skipped = 0, failed = 0, total = 1\<rparr>
   \<and> cache_file (snd (run_sync preview_cfg (demo_env demo_lib (demo_remote 200 (plain 404) 201))
        fresh)) = cache_file fresh
   \<and> net_log (snd (run_sync preview_cfg (demo_env demo_lib (demo_remote 200 (plain 404) 201))
        fresh)) = net_log fresh @ [repo_request demo_api]"
  using dry_run_effects [of preview_cfg "demo_env demo_lib (demo_remote 200 (plain 404) 201)" fresh]
  by (simp add: run_preview preview_cfg_simps fresh_simps)


text \<open>
  The claim as it is written fails: \<^verbatim>\<open>dry_run\<close> guards the uploads and the cache
  file only (lines 201 and 217), not the pre-flight check of lines 181 to 185. When the
  repository is not accessible, a dry run sends the POST that creates it.
\<close>

theorem dry_run_creates_repo_counterexample:
  "dry_run preview_cfg
   \<and> net_log (snd (run_sync preview_cfg (demo_env demo_lib (demo_remote 404 (plain 404) 201))
        fresh))
     = [repo_request demo_api,
        POST ''https://api.github.com/user/repos'' (headers demo_api)
          \<lparr>rp_name = ''r'', rp_private = False, rp_auto_init = True\<rparr>]"
  by (simp add: run_preview_no_repo preview_cfg_simps create_request_def url_def BASE_def
      demo_api_def GitHubAPI_def)


subsection \<open>Unreadable files\<close>

lemma sync_loop_append:
  "sync_loop cfg env a msg (xs @ ys) sc w =
     (case sync_loop cfg env a msg xs sc w of
        (Inl err, w') \<Rightarrow> (Inl err, w')
      | (Inr sc', w') \<Rightarrow> sync_loop cfg env a msg ys sc' w')"
proof (induction xs arbitrary: sc w)
  case Nil
  show ?case by simp
next
  case (Cons x xs)
  show ?case
    by (cases "sync_file cfg env a msg x sc w") (simp add: Cons.IH split: sum.splits)
qed

lemma sync_loop_stops_at_unreadable:
  "fdata (snd p) = Inl err \<Longrightarrow>
   sync_loop cfg env a msg (pre @ (p, rp) # post) sc w =
     (case sync_loop cfg env a msg pre sc w of
        (Inl e, w') \<Rightarrow> (Inl e, w')
      | (Inr sc', w') \<Rightarrow> (Inl err, w'))"
proof -
  assume locked: "fdata (snd p) = Inl err"
  then have md5: "file_md5 (md5_hex env) p = Inl err"
    by (simp add: file_md5_def)
  have "sync_loop cfg env a msg ((p, rp) # post) sc' w' = (Inl err, w')" for sc' w'
    using sync_file_md5_error [OF md5, of cfg a msg rp sc' w'] by simp
  then show ?thesis
    by (simp add: sync_loop_append split: prod.splits sum.splits)
qed


lemma scan_locked_middle':
  "scan (str_lower (demo_env locked_middle service)) demo_cfg locked_middle
     = [(([], a_py), ''a.py'')] @ (([], locked_py), ''locked.py'') # [(([], b_py), ''b.py'')]"
  by (simp add: demo_env_simps scan_locked_middle)


text \<open>
  C3. A file that cannot be read, as the code has it: nothing in \<^verbatim>\<open>run_sync\<close> catches
  the \<^verbatim>\<open>OSError\<close> of \<^verbatim>\<open>file_md5\<close> (every scanned file is fingerprinted, line 194).
  Whenever some scanned file cannot be read, the run ends with an exception: it returns
  no report, and the persisted cache file is left as it was. The run is the pre-flight
  check followed by the loop over the files scanned before the unreadable one, and
  nothing more: if those raise nothing, the exception is the \<^verbatim>\<open>OSError\<close> of that
  file, and the files scanned after it are never processed.
\<close>

theorem unreadable_file_aborts:
  assumes "library env = Some lib"
    and "scan (str_lower env) cfg lib = pre @ (p, rp) # post"
    and "fdata (snd p) = Inl err"
  shows "(\<exists>err'. fst (run_sync cfg env w) = Inl err')
     \<and> cache_file (snd (run_sync cfg env w)) = cache_file w
     \<and> (\<forall>e w1. preflight cfg env w = (Inl e, w1) \<longrightarrow> run_sync cfg env w = (Inl e, w1))
     \<and> (\<forall>a msg w1. preflight cfg env w = (Inr (a, msg, lib), w1) \<longrightarrow>
          run_sync cfg env w =
            (case sync_loop cfg env a msg pre
                    (\<lparr>uploaded = 0, skipped = 0, failed = 0, total = 0\<rparr>, load_cache w1) w1 of
               (Inl e, w2) \<Rightarrow> (Inl e, w2)
             | (Inr sc, w2) \<Rightarrow> (Inl err, w2)))"
proof -
  let ?s0 = "\<lparr>uploaded = 0, skipped = 0, failed = 0, total = 0\<rparr>"
  have early: "run_sync cfg env w = (Inl e, w1)" if "preflight cfg env w = (Inl e, w1)" for e w1
    using that by (simp add: run_sync_def)
  have stops: "run_sync cfg env w =
      (case sync_loop cfg env a msg pre (?s0, load_cache w1) w1 of
         (Inl e, w2) \<Rightarrow> (Inl e, w2) | (Inr sc, w2) \<Rightarrow> (Inl err, w2))"
    if "preflight cfg env w = (Inr (a, msg, lib), w1)" for a msg w1
    using that
    by (simp add: run_sync_def assms(2) sync_loop_stops_at_unreadable [OF assms(3)]
        split: prod.splits sum.splits)
  obtain r w1 where pre: "preflight cfg env w = (r, w1)"
    by (cases "preflight cfg env w")
  have ends: "\<exists>err'. fst (run_sync cfg env w) = Inl err'"
  proof (cases r)
    case (Inl e)
    with pre early show ?thesis by simp
  next
    case (Inr x)
    obtain a msg lib' where x: "x = (a, msg, lib')" by (cases x)
    from preflight_Inr(1) [OF pre [unfolded Inr x]] assms(1) have "lib' = lib" by simp
    with stops [of a msg w1] pre Inr x show ?thesis
      by (auto split: prod.splits sum.splits)
  qed
  then have "cache_file (snd (run_sync cfg env w)) = cache_file w"
    using run_sync_cache_file_on_error [of cfg env w] by auto
  with ends early stops show ?thesis by blast
qed


theorem unreadable_file_aborts_witness:
  "library (demo_env locked_middle (demo_remote 200 (plain 404) 201)) = Some locked_middle
   \<and> scan ascii_lower demo_cfg locked_middle
       = [(([], a_py), ''a.py'')] @ (([], locked_py), ''locked.py'') # [(([], b_py), ''b.py'')]
   \<and> fdata (snd ([], locked_py)) = Inl OSError
   \<and> run_sync demo_cfg (demo_env locked_middle (demo_remote 200 (plain 404) 201)) fresh
       = (Inl OSError,
          \<lparr>cache_file = None,
           net_log = [repo_request demo_api, get_request demo_api ''a.py'',
                      put_request demo_api ''a.py'' [0x61, 0x62, 0x0A] ''Auto-sync'' None]\<rparr>)"
proof -
  let ?env = "demo_env locked_middle (demo_remote 200 (plain 404) 201)"
  have lib: "library ?env = Some locked_middle"
    by (simp add: demo_env_simps)
  have locked: "fdata (snd ([], locked_py)) = Inl OSError"
    by (simp add: locked_py_def)
  have pre: "preflight demo_cfg ?env fresh
      = (Inr (demo_api, ''Auto-sync'', locked_middle),
         fresh\<lparr>net_log := net_log fresh @ [repo_request demo_api]\<rparr>)"
    by (rule preflight_demo)
  from unreadable_file_aborts [OF lib scan_locked_middle' locked, of fresh] pre
  have "run_sync demo_cfg ?env fresh =
      (case sync_loop demo_cfg ?env demo_api ''Auto-sync'' [(([], a_py), ''a.py'')]
              (\<lparr>uploaded = 0, skipped = 0, failed = 0, total = 0\<rparr>,
               load_cache (fresh\<lparr>net_log := net_log fresh @ [repo_request demo_api]\<rparr>))
              (fresh\<lparr>net_log := net_log fresh @ [repo_request demo_api]\<rparr>) of
         (Inl e, w2) \<Rightarrow> (Inl e, w2) | (Inr sc, w2) \<Rightarrow> (Inl OSError, w2))"
    by blast
  then have "run_sync demo_cfg ?env fresh
       = (Inl OSError,
          \<lparr>cache_file = None,
           net_log = [repo_request demo_api, get_request demo_api ''a.py'',
                      put_request demo_api ''a.py'' [0x61, 0x62, 0x0A] ''Auto-sync'' None]\<rparr>)"
    by (simp add: load_cache_def sync_file_def demo_env_simps demo_cfg_simps md5_a_py read_a_py
        get_file_sha_demo put_file_demo fresh_def)
  with lib locked show ?thesis
    by (simp add: scan_locked_middle)
qed

text \<open>
  The claim as it is written fails: with an unreadable file first in the scan, the run
  ends with \<^verbatim>\<open>OSError\<close> right after the pre-flight check; nothing is counted as
  failed and the next file, \<^verbatim>\<open>a.py\<close>, is never looked at.
\<close>

theorem unreadable_file_counterexample:
  "(([], locked_py), ''locked.py'') \<in> set (scan ascii_lower demo_cfg locked_first)
   \<and> (([], a_py), ''a.py'') \<in> set (scan ascii_lower demo_cfg locked_first)
   \<and> fdata locked_py = Inl OSError
   \<and> run_sync demo_cfg (demo_env locked_first (demo_remote 200 (plain 404) 201)) fresh
       = (Inl OSError, \<lparr>cache_file = None, net_log = [repo_request demo_api]\<rparr>)"
  by (simp add: run_locked_first scan_locked_first locked_py_def)

subsection \<open>Uploads: lookup and write\<close>

lemma sync_file_upload_world:
  assumes "\<not> dry_run cfg" "file_md5 (md5_hex env) p = Inr m" "map_of c rp \<noteq> Some m"
    "get_file_sha env a rp w = (Inr sha, w1)" "read_bytes p = Inr content"
  shows "snd (sync_file cfg env a msg (p, rp) (s, c) w)
     = w\<lparr>net_log := net_log w @ [get_request a rp, put_request a rp content msg sha]\<rparr>"
proof -
  from assms(4) have w1: "w1 = w\<lparr>net_log := net_log w @ [get_request a rp]\<rparr>"
    using get_file_sha_world [of env a rp w] by simp
  note step = sync_file_put [OF assms(2,3,1,4,5), of msg s]
  have "snd (sync_file cfg env a msg (p, rp) (s, c) w)
      = snd (put_file env a rp content msg sha w1)"
    unfolding step by (simp split: prod.splits sum.splits)
  then show ?thesis
    by (simp add: put_file_world w1)
qed



lemma a_py_data: "fdata (snd ([], a_py)) = Inr [0x61, 0x62, 0x0A]"
  by (simp add: a_py_def)

lemma a_py_bytes: "fdata a_py = Inr [0x61, 0x62, 0x0A]"
  by (simp add: a_py_def)

lemma demo_md5_a_py: "demo_md5 [0x61, 0x62, 0x0A] = ''61620a''"
  by (simp add: demo_md5_def)


lemma remote_demo_get:
  "remote (demo_env lib (demo_remote rs l ps)) history (get_request a rp) = Inr l"
  by (simp add: demo_env_simps demo_remote_def get_request_def)

lemma run_lookup_500:
  "run_sync demo_cfg (demo_env demo_lib (demo_remote 200 (plain 500) 201)) fresh
     = (Inr \<lparr>uploaded = 1, skipped = 0, failed = 0, total = 1\<rparr>,
        \<lparr>cache_file = Some [(''a.py'', ''61620a'')],
         net_log = [repo_request demo_api, get_request demo_api ''a.py'',
                    put_request demo_api ''a.py'' [0x61, 0x62, 0x0A] ''Auto-sync'' None]\<rparr>)"
  by (simp add: run_sync_def preflight_demo scan_demo load_cache_def sync_file_def
      demo_env_simps demo_cfg_simps md5_a_py read_a_py get_file_sha_demo put_file_demo fresh_def)


text \<open>
  C6. Token threading, as the code has it: for a file that is uploaded, the request
  that follows the lookup is the PUT of the file's content, and its payload has the key
  \<^verbatim>\<open>sha\<close> exactly when the lookup returned a token that is not the empty string
  (the test is \<^verbatim>\<open>if sha:\<close>); the token it carries is then the one the lookup returned.
\<close>

theorem put_carries_token:
  assumes "\<not> dry_run cfg"
    and "fdata (snd p) = Inr content"
    and "map_of c rp \<noteq> Some (md5_hex env content)"
    and "get_file_sha env a rp w = (Inr sha, w1)"
  shows "\<exists>payload. net_log (snd (sync_file cfg env a msg (p, rp) (s, c) w))
         = net_log w @ [get_request a rp, PUT (contents_url a rp) (headers a) payload]
       \<and> pl_sha payload = (if sha = Some [] then None else sha)
       \<and> pl_content payload = b64encode content \<and> pl_message payload = msg"
proof -
  from assms(2) have md5: "file_md5 (md5_hex env) p = Inr (md5_hex env content)"
    by (rule file_md5_eq)
  from assms(2) have rd: "read_bytes p = Inr content"
    by (simp add: read_bytes_def)
  from sync_file_upload_world [OF assms(1) md5 assms(3,4) rd, of msg s]
  show ?thesis
    by (cases sha) (simp_all add: put_request_def)
qed


theorem put_carries_token_witness:
  "\<not> dry_run demo_cfg
   \<and> fdata (snd ([], a_py)) = Inr [0x61, 0x62, 0x0A]
   \<and> get_file_sha (demo_env demo_lib (demo_remote 200 (found 200 ''abc123'') 200)) demo_api
        ''a.py'' fresh
       = (Inr (Some ''abc123''), fresh\<lparr>net_log := [get_request demo_api ''a.py'']\<rparr>)
   \<and> (\<exists>payload. net_log (snd (sync_file demo_cfg
          (demo_env demo_lib (demo_remote 200 (found 200 ''abc123'') 200)) demo_api ''Auto-sync''
          (([], a_py), ''a.py'') (\<lparr>uploaded = 0, skipped = 0, failed = 0, total = 0\<rparr>, []) fresh))
         = [get_request demo_api ''a.py'',
            PUT (contents_url demo_api ''a.py'') (headers demo_api) payload]
       \<and> pl_sha payload = Some ''abc123'')"
proof -
  let ?env = "demo_env demo_lib (demo_remote 200 (found 200 ''abc123'') 200)"
  have real: "\<not> dry_run demo_cfg"
    by (simp add: demo_cfg_simps)
  have changed: "map_of [] ''a.py'' \<noteq> Some (md5_hex ?env [0x61, 0x62, 0x0A])"
    by simp
  have look: "get_file_sha ?env demo_api ''a.py'' fresh
       = (Inr (Some ''abc123''), fresh\<lparr>net_log := [get_request demo_api ''a.py'']\<rparr>)"
    by (simp add: get_file_sha_demo fresh_simps)
  from put_carries_token [OF real a_py_data changed look, of "''Auto-sync''"
      "\<lparr>uploaded = 0, skipped = 0, failed = 0, total = 0\<rparr>"]
    real look
  show ?thesis
    by (auto simp add: a_py_bytes fresh_simps)
qed


text \<open>
  The claim as it is written fails when the lookup returns the empty string as token:
  \<^verbatim>\<open>if sha:\<close> is false for it, and the PUT carries no token.
\<close>

theorem empty_token_counterexample:
  "fst (get_file_sha (demo_env demo_lib (demo_remote 200 (found 200 []) 200)) demo_api
        ''a.py'' fresh) = Inr (Some [])
   \<and> net_log (snd (sync_file demo_cfg (demo_env demo_lib (demo_remote 200 (found 200 []) 200))
        demo_api ''Auto-sync'' (([], a_py), ''a.py'')
        (\<lparr>uploaded = 0, skipped = 0, failed = 0, total = 0\<rparr>, []) fresh))
     = [get_request demo_api ''a.py'',
        PUT (contents_url demo_api ''a.py'') (headers demo_api)
          \<lparr>pl_message = ''Auto-sync'', pl_content = ''YWIK'', pl_branch = ''main'',
           pl_sha = None\<rparr>]"
  by (simp add: sync_file_def demo_env_simps demo_cfg_simps md5_a_py read_a_py
      get_file_sha_demo put_file_demo fresh_simps put_request_def b64_char_def
      demo_api_def GitHubAPI_def)


text \<open>
  C7. Lookup error classification, as the code has it: \<^verbatim>\<open>get_file_sha\<close> returns
  \<^verbatim>\<open>None\<close> for every response whose status is not 200, whether it is 404 or any
  other status; no status is a failure of the lookup.
\<close>

theorem lookup_status:
  "remote env (net_log w) (get_request a rp) = Inr r \<Longrightarrow> status_code r \<noteq> 200 \<Longrightarrow>
     get_file_sha env a rp w = (Inr None, w\<lparr>net_log := net_log w @ [get_request a rp]\<rparr>)"
  by (simp add: get_file_sha_def send_def)

theorem lookup_status_witness:
  "remote (demo_env demo_lib (demo_remote 200 (plain 403) 201)) (net_log fresh)
      (get_request demo_api ''a.py'') = Inr (plain 403)
   \<and> status_code (plain 403) \<noteq> 200
   \<and> get_file_sha (demo_env demo_lib (demo_remote 200 (plain 403) 201)) demo_api ''a.py'' fresh
       = (Inr None, fresh\<lparr>net_log := [get_request demo_api ''a.py'']\<rparr>)"
proof -
  have answer: "remote (demo_env demo_lib (demo_remote 200 (plain 403) 201)) (net_log fresh)
      (get_request demo_api ''a.py'') = Inr (plain 403)"
    by (rule remote_demo_get)
  have status: "status_code (plain 403) \<noteq> 200"
    by (simp add: plain_def)
  from lookup_status [OF answer status] answer status show ?thesis
    by (simp add: fresh_simps)
qed


text \<open>
  The claim as it is written fails: a lookup answered with the status 500 returns
  \<^verbatim>\<open>None\<close> as a 404 does, and the run goes on to create the file with a PUT that
  carries no token and counts it as uploaded.
\<close>

theorem lookup_500_counterexample:
  "remote (demo_env demo_lib (demo_remote 200 (plain 500) 201)) (net_log fresh)
      (get_request demo_api ''a.py'') = Inr \<lparr>status_code = 500, json = Inr (JObject Map.empty)\<rparr>
   \<and> fst (get_file_sha (demo_env demo_lib (demo_remote 200 (plain 500) 201)) demo_api ''a.py''
        fresh) = Inr None
   \<and> run_sync demo_cfg (demo_env demo_lib (demo_remote 200 (plain 500) 201)) fresh
     = (Inr \<lparr>uploaded = 1, skipped = 0, failed = 0, total = 1\<rparr>,
        \<lparr>cache_file = Some [(''a.py'', ''61620a'')],
         net_log = [repo_request demo_api, get_request demo_api ''a.py'',
                    put_request demo_api ''a.py'' [0x61, 0x62, 0x0A] ''Auto-sync'' None]\<rparr>)"
  by (simp add: remote_demo_get get_file_sha_demo run_lookup_500 plain_def [symmetric])

subsection \<open>A second run\<close>

lemma sync_loop_keeps_other_entries:
  "sync_loop cfg env a msg es (s, c) w = (Inr (s', c'), w') \<Longrightarrow> rp \<notin> snd ` set es \<Longrightarrow>
     map_of c' rp = map_of c rp"
proof (induction es arbitrary: s c w)
  case Nil
  then show ?case by simp
next
  case (Cons e es)
  obtain p rp0 where e: "e = (p, rp0)" by (cases e)
  from Cons.prems(1) obtain sc1 w1
    where step: "sync_file cfg env a msg e (s, c) w = (Inr sc1, w1)"
      and rest: "sync_loop cfg env a msg es sc1 w1 = (Inr (s', c'), w')"
    by (rule sync_loop_Cons_Inr)
  obtain s1 c1 where sc1: "sc1 = (s1, c1)" by (cases sc1)
  from Cons.prems(2) e have other: "rp0 \<noteq> rp" and later: "rp \<notin> snd ` set es"
    by auto
  from step [unfolded e sc1] have "map_of c1 rp = map_of c rp"
    using other by (cases rule: sync_file_outcome) (simp_all add: update_conv)
  with Cons.IH [OF rest [unfolded sc1] later] show ?case by simp
qed

lemma sync_loop_fills_cache:
  "\<not> dry_run cfg \<Longrightarrow> sync_loop cfg env a msg es (s, c) w = (Inr (s', c'), w') \<Longrightarrow>
   failed s' = failed s \<Longrightarrow> distinct (map snd es) \<Longrightarrow> (p, rp) \<in> set es \<Longrightarrow>
     \<exists>m. file_md5 (md5_hex env) p = Inr m \<and> map_of c' rp = Some m"
proof (induction es arbitrary: s c w)
  case Nil
  then show ?case by simp
next
  case (Cons e es)
  obtain p0 rp0 where e: "e = (p0, rp0)" by (cases e)
  from Cons.prems(2) obtain sc1 w1
    where step: "sync_file cfg env a msg e (s, c) w = (Inr sc1, w1)"
      and rest: "sync_loop cfg env a msg es sc1 w1 = (Inr (s', c'), w')"
    by (rule sync_loop_Cons_Inr)
  obtain s1 c1 where sc1: "sc1 = (s1, c1)" by (cases sc1)
  from sync_loop_counters [OF rest [unfolded sc1]] have up: "failed s1 \<le> failed s'"
    by simp
  from Cons.prems(4) e have fresh_path: "rp0 \<notin> snd ` set es" and dist: "distinct (map snd es)"
    by (auto simp: image_iff)
  from step [unfolded e sc1]
  have here: "\<exists>m. file_md5 (md5_hex env) p0 = Inr m \<and> map_of c1 rp0 = Some m"
    and same: "failed s1 = failed s"
    using Cons.prems(1,3) up by (cases rule: sync_file_outcome; simp add: update_conv)+
  show ?case
  proof (cases "(p, rp) = e")
    case True
    with e have "p = p0" "rp = rp0" by simp_all
    with here sync_loop_keeps_other_entries [OF rest [unfolded sc1] fresh_path]
    show ?thesis by simp
  next
    case False
    with Cons.prems(5) have "(p, rp) \<in> set es" by simp
    from Cons.IH [OF Cons.prems(1) rest [unfolded sc1] _ dist this] same Cons.prems(3)
    show ?thesis by simp
  qed
qed

lemma sync_loop_all_skipped:
  "(\<And>p rp. (p, rp) \<in> set es \<Longrightarrow> \<exists>m. file_md5 (md5_hex env) p = Inr m \<and> map_of c rp = Some m)
   \<Longrightarrow> sync_loop cfg env a msg es (s, c) w
       = (Inr (s\<lparr>total := total s + length es, skipped := skipped s + length es\<rparr>, c), w)"
proof (induction es arbitrary: s)
  case Nil
  show ?case by simp
next
  case (Cons e es)
  obtain p rp where e: "e = (p, rp)" by (cases e)
  from Cons.prems [of p rp] e obtain m
    where md5: "file_md5 (md5_hex env) p = Inr m" and hit: "map_of c rp = Some m"
    by auto
  have rest: "sync_loop cfg env a msg es (s\<lparr>total := total s + 1, skipped := skipped s + 1\<rparr>, c) w
      = (Inr (s\<lparr>total := total s + 1, skipped := skipped s + 1\<rparr>
            \<lparr>total := total (s\<lparr>total := total s + 1, skipped := skipped s + 1\<rparr>) + length es,
             skipped := skipped (s\<lparr>total := total s + 1, skipped := skipped s + 1\<rparr>) + length es\<rparr>,
          c), w)"
    by (rule Cons.IH) (simp add: Cons.prems)
  show ?case
    unfolding e using sync_file_skip [OF md5 hit, of cfg a msg s w] rest by simp
qed


lemma run_put_fails:
  "run_sync demo_cfg (demo_env demo_lib (demo_remote 200 (plain 404) 500)) fresh
     = (Inr \<lparr>uploaded = 0, skipped = 0, failed = 1, total = 1\<rparr>,
        \<lparr>cache_file = Some [],
         net_log = [repo_request demo_api, get_request demo_api ''a.py'',
                    put_request demo_api ''a.py'' [0x61, 0x62, 0x0A] ''Auto-sync'' None]\<rparr>)"
  by (simp add: run_sync_def preflight_demo scan_demo load_cache_def sync_file_def
      demo_env_simps demo_cfg_simps md5_a_py read_a_py get_file_sha_demo put_file_demo fresh_def)

lemma run_after_failure:
  "run_sync demo_cfg (demo_env demo_lib (demo_remote 200 (plain 404) 201))
       \<lparr>cache_file = Some [], net_log = history\<rparr>
     = (Inr \<lparr>uploaded = 1, skipped = 0, failed = 0, total = 1\<rparr>,
        \<lparr>cache_file = Some [(''a.py'', ''61620a'')],
         net_log = history @ [repo_request demo_api, get_request demo_api ''a.py'',
                    put_request demo_api ''a.py'' [0x61, 0x62, 0x0A] ''Auto-sync'' None]\<rparr>)"
  by (simp add: run_sync_def preflight_demo scan_demo load_cache_def sync_file_def
      demo_env_simps demo_cfg_simps md5_a_py read_a_py get_file_sha_demo put_file_demo)

lemma scan_colliding:
  "scan ascii_lower demo_cfg colliding = [(([], backslash_py), ''a/b.py''), (([''a''], b_py), ''a/b.py'')]"
  by code_simp

lemma md5_colliding:
  "file_md5 demo_md5 ([], backslash_py) = Inr ''61620a''"
  "file_md5 demo_md5 ([''a''], b_py) = Inr ''620a''"
  by (simp_all add: file_md5_eq [of _ "[0x61, 0x62, 0x0A]"] file_md5_eq [of _ "[0x62, 0x0A]"]
      backslash_py_def b_py_def demo_md5_def)

lemma read_colliding:
  "read_bytes ([], backslash_py) = Inr [0x61, 0x62, 0x0A]"
  "read_bytes ([''a''], b_py) = Inr [0x62, 0x0A]"
  by (simp_all add: read_bytes_def backslash_py_def b_py_def)

text \<open>
  Two files with one repo path and different contents overwrite each other's cache
  entry: both are uploaded in every run, also after a run without a failure.
\<close>

lemma run_colliding:
  "previous = None \<or> previous = Some [(''a/b.py'', ''620a'')] \<Longrightarrow>
   run_sync demo_cfg (demo_env colliding (demo_remote 200 (plain 404) 201))
       \<lparr>cache_file = previous, net_log = history\<rparr>
     = (Inr \<lparr>uploaded = 2, skipped = 0, failed = 0, total = 2\<rparr>,
        \<lparr>cache_file = Some [(''a/b.py'', ''620a'')],
         net_log = history @ [repo_request demo_api,
            get_request demo_api ''a/b.py'',
            put_request demo_api ''a/b.py'' [0x61, 0x62, 0x0A] ''Auto-sync'' None,
            get_request demo_api ''a/b.py'',
            put_request demo_api ''a/b.py'' [0x62, 0x0A] ''Auto-sync'' None]\<rparr>)"
  by (auto simp add: run_sync_def preflight_demo scan_colliding load_cache_def sync_file_def
      demo_env_simps demo_cfg_simps md5_colliding read_colliding get_file_sha_demo put_file_demo)


text \<open>
  C5. Idempotence, as the code has it: when a first run that is not a dry run returns
  its report with \<^verbatim>\<open>failed\<close> at 0 (and so has written its cache), and no two scanned
  files have the same repo path, a second run over the same library with the same
  contents, once past its pre-flight check, counts every scanned file as skipped,
  uploads nothing, and sends no request after those of the pre-flight check. The remote
  service, the clock and the formatter of the second run may differ from the first's.
\<close>

theorem second_run_skips_all:
  assumes "run_sync cfg env w = (Inr st, w1)"
    and "\<not> dry_run cfg"
    and "failed st = 0"
    and "library env = Some lib"
    and "distinct (map snd (scan (str_lower env) cfg lib))"
    and "library env2 = Some lib"
    and "md5_hex env2 = md5_hex env"
    and "str_lower env2 = str_lower env"
    and "preflight cfg env2 w1 = (Inr x, w2)"
  shows "run_sync cfg env2 w1
     = (Inr \<lparr>uploaded = 0, skipped = length (scan (str_lower env) cfg lib), failed = 0,
             total = length (scan (str_lower env) cfg lib)\<rparr>, w2)"
proof -
  let ?s0 = "\<lparr>uploaded = 0, skipped = 0, failed = 0, total = 0\<rparr>"
  obtain r w0 where pre: "preflight cfg env w = (r, w0)"
    by (cases "preflight cfg env w")
  from assms(1) pre obtain a msg lib0 where r: "r = Inr (a, msg, lib0)"
    by (cases r) (auto simp: run_sync_def)
  from preflight_Inr(1) [OF pre [unfolded r]] assms(4) have lib0: "lib0 = lib"
    by simp
  obtain r1 w1' where loop: "sync_loop cfg env a msg (scan (str_lower env) cfg lib) (?s0, load_cache w0) w0 = (r1, w1')"
    by (cases "sync_loop cfg env a msg (scan (str_lower env) cfg lib) (?s0, load_cache w0) w0")
  from assms(1) pre r lib0 loop obtain c1 where r1: "r1 = Inr (st, c1)"
    by (cases r1) (auto simp: run_sync_def)
  from assms(1,2) pre r lib0 loop r1 have w1: "w1 = w1'\<lparr>cache_file := Some c1\<rparr>"
    by (simp add: run_sync_def)
  have filled: "\<exists>m. file_md5 (md5_hex env) p = Inr m \<and> map_of c1 rp = Some m"
    if "(p, rp) \<in> set (scan (str_lower env) cfg lib)" for p rp
    using sync_loop_fills_cache [OF assms(2) loop [unfolded r1] _ assms(5) that] assms(3)
    by simp
  obtain a2 msg2 lib2 where x: "x = (a2, msg2, lib2)" by (cases x)
  from preflight_Inr(1,3) [OF assms(9) [unfolded x]] assms(6) w1
  have lib2: "lib2 = lib" and cache2: "cache_file w2 = Some c1"
    by simp_all
  then have load: "load_cache w2 = c1"
    by (simp add: load_cache_def)
  have "sync_loop cfg env2 a2 msg2 (scan (str_lower env) cfg lib) (?s0, c1) w2
      = (Inr (?s0\<lparr>total := total ?s0 + length (scan (str_lower env) cfg lib),
                   skipped := skipped ?s0 + length (scan (str_lower env) cfg lib)\<rparr>, c1), w2)"
    by (rule sync_loop_all_skipped) (simp add: assms(7) filled)
  moreover have "w2\<lparr>cache_file := Some c1\<rparr> = w2"
    using cache2 by simp
  ultimately show ?thesis
    using assms(9) x lib2 load by (simp add: run_sync_def assms(8))
qed

theorem second_run_skips_all_witness:
  "run_sync demo_cfg (demo_env demo_lib (demo_remote 200 (plain 404) 201)) fresh
     = (Inr \<lparr>uploaded = 1, skipped = 0, failed = 0, total = 1\<rparr>,
        \<lparr>cache_file = Some [(''a.py'', ''61620a'')],
         net_log = [repo_request demo_api, get_request demo_api ''a.py'',
                    put_request demo_api ''a.py'' [0x61, 0x62, 0x0A] ''Auto-sync'' None]\<rparr>)
   \<and> \<not> dry_run demo_cfg
   \<and> distinct (map snd (scan ascii_lower demo_cfg demo_lib))
   \<and> run_sync demo_cfg (demo_env demo_lib (demo_remote 200 (plain 404) 500))
        \<lparr>cache_file = Some [(''a.py'', ''61620a'')],
         net_log = [repo_request demo_api, get_request demo_api ''a.py'',
                    put_request demo_api ''a.py'' [0x61, 0x62, 0x0A] ''Auto-sync'' None]\<rparr>
     = (Inr \<lparr>uploaded = 0, skipped = 1, failed = 0, total = 1\<rparr>,
        \<lparr>cache_file = Some [(''a.py'', ''61620a'')],
         net_log = [repo_request demo_api, get_request demo_api ''a.py'',
                    put_request demo_api ''a.py'' [0x61, 0x62, 0x0A] ''Auto-sync'' None,
                    repo_request demo_api]\<rparr>)"
proof -
  let ?w1 = "\<lparr>cache_file = Some [(''a.py'', ''61620a'')],
         net_log = [repo_request demo_api, get_request demo_api ''a.py'',
                    put_request demo_api ''a.py'' [0x61, 0x62, 0x0A] ''Auto-sync'' None]\<rparr>"
  let ?env = "demo_env demo_lib (demo_remote 200 (plain 404) 201)"
  let ?env2 = "demo_env demo_lib (demo_remote 200 (plain 404) 500)"
  have real: "\<not> dry_run demo_cfg"
    by (simp add: demo_cfg_simps)
  have none_failed: "failed \<lparr>uploaded = 1, skipped = 0, failed = 0, total = 1\<rparr> = 0"
    by simp
  have lib: "library ?env = Some demo_lib" and lib2: "library ?env2 = Some demo_lib"
    and digest: "md5_hex ?env2 = md5_hex ?env" and lower: "str_lower ?env2 = str_lower ?env"
    by (simp_all add: demo_env_simps)
  have paths: "distinct (map snd (scan ascii_lower demo_cfg demo_lib))"
    by (simp add: scan_demo)
  then have paths': "distinct (map snd (scan (str_lower ?env) demo_cfg demo_lib))"
    by (simp add: demo_env_simps)
  have pre2: "preflight demo_cfg ?env2 ?w1
      = (Inr (demo_api, ''Auto-sync'', demo_lib), ?w1\<lparr>net_log := net_log ?w1 @ [repo_request demo_api]\<rparr>)"
    by (rule preflight_demo)
  from second_run_skips_all [OF run_first real none_failed lib paths' lib2 digest lower pre2]
    run_first real paths
  show ?thesis
    by (simp add: scan_demo demo_env_simps)
qed


text \<open>
  The claim as it is written fails: a first run in which the PUT of \<^verbatim>\<open>a.py\<close> is
  answered with 500 completes and writes its cache file, without an entry for
  \<^verbatim>\<open>a.py\<close>; the second run over the same unchanged file uploads it.
\<close>

theorem second_run_uploads_counterexample:
  "run_sync demo_cfg (demo_env demo_lib (demo_remote 200 (plain 404) 500)) fresh
     = (Inr \<lparr>uploaded = 0, skipped = 0, failed = 1, total = 1\<rparr>,
        \<lparr>cache_file = Some [],
         net_log = [repo_request demo_api, get_request demo_api ''a.py'',
                    put_request demo_api ''a.py'' [0x61, 0x62, 0x0A] ''Auto-sync'' None]\<rparr>)
   \<and> fst (run_sync demo_cfg (demo_env demo_lib (demo_remote 200 (plain 404) 201))
        \<lparr>cache_file = Some [],
         net_log = [repo_request demo_api, get_request demo_api ''a.py'',
                    put_request demo_api ''a.py'' [0x61, 0x62, 0x0A] ''Auto-sync'' None]\<rparr>)
     = Inr \<lparr>uploaded = 1, skipped = 0, failed = 0, total = 1\<rparr>"
  by (simp add: run_put_fails run_after_failure)

subsection \<open>Retry after a failed write\<close>



















end
